theory Spec2Isabelle
  imports Main "HOL-Library.Sublist"
begin

section \<open>Python values and errors\<close>

text \<open>
  The exceptions that the two modules \<^verbatim>\<open>replay.py\<close> and \<^verbatim>\<open>video.py\<close> can raise or let
  through.  \<open>RuntimeError\<close> carries its message, \<open>CalledProcessError\<close> the exit status of
  the child process.
\<close>

datatype py_error =
    IndexError
  | KeyError
  | AttributeError
  | AssertionError
  | UnboundLocalError
  | ImportError
  | FileNotFoundError
  | OSError
  | RuntimeError string
  | CalledProcessError int

text \<open>
  Indexing a Python list with a non-negative index: \<open>None\<close> stands for the
  \<open>IndexError\<close> that the caller then raises.
\<close>

fun nth_opt :: "'a list \<Rightarrow> nat \<Rightarrow> 'a option" where
  "nth_opt [] n = None"
| "nth_opt (x # xs) 0 = Some x"
| "nth_opt (x # xs) (Suc n) = nth_opt xs n"

section \<open>replay.py: reformat\_info\<close>

subsection \<open>File name metadata (lines 89 to 95)\<close>

text \<open>\<^verbatim>\<open>os.path.basename\<close>: what follows the last slash.\<close>

definition basename :: "string \<Rightarrow> string" where
  "basename p = rev (takeWhile (\<lambda>c. c \<noteq> CHR ''/'') (rev p))"

text \<open>
  \<^verbatim>\<open>str.split(sep)\<close> for a one-character separator: the result is never empty, and
  the empty string splits into one empty token.  The last case of the inner \<open>case\<close> is
  not reachable, the recursive result always has a first token.
\<close>

fun split_on :: "char \<Rightarrow> string \<Rightarrow> string list" where
  "split_on c [] = [[]]"
| "split_on c (x # xs) =
     (if x = c then [] # split_on c xs
      else (case split_on c xs of
              t # ts \<Rightarrow> (x # t) # ts
            | [] \<Rightarrow> [[x]]))"

text \<open>\<^verbatim>\<open>ent.split("-", 1)\<close> on a token that contains the separator: two parts.\<close>

definition split_once :: "char \<Rightarrow> string \<Rightarrow> string \<times> string" where
  "split_once c s = (takeWhile (\<lambda>x. x \<noteq> c) s, drop 1 (dropWhile (\<lambda>x. x \<noteq> c) s))"

text \<open>
  The loop over \<open>entities\<close> that fills \<open>entities_dict\<close>; a later token with the
  same field name overwrites an earlier one.
\<close>

fun parse_entities :: "string list \<Rightarrow> (string \<rightharpoonup> string) \<Rightarrow> (string \<rightharpoonup> string)" where
  "parse_entities [] d = d"
| "parse_entities (ent # ents) d =
     parse_entities ents
       (if CHR ''-'' \<in> set ent
        then (case split_once CHR ''-'' ent of (key, val) \<Rightarrow> d(key \<mapsto> val))
        else d)"

definition entities_dict :: "string \<Rightarrow> (string \<rightharpoonup> string)" where
  "entities_dict bk2_fpath =
     parse_entities (split_on CHR ''_'' (basename bk2_fpath)) Map.empty"

subsection \<open>The record being built\<close>

text \<open>
  One element of a per-frame sequence: a value taken from an info mapping, or one
  button state taken from a key vector.
\<close>

datatype 'v cell = Info 'v | Key bool

text \<open>
  The values stored in \<open>repetition_variables\<close>: a string, \<open>None\<close>, the list of
  action names, or a sequence that lines 112 and 114 append to.  \<open>VNames ns ex\<close> is the very
  list object that was passed as \<open>actions\<close>: \<open>ns\<close> are its names and \<open>ex\<close> what has been
  appended to it since (an info key called \<open>actions\<close> that first shows up in a later
  frame does that).  The record holds that object under \<open>actions\<close> unless line 106 or
  108 has put a new list there.
\<close>

datatype 'v rv_value =
    VStr string
  | VNone
  | VNames "string list" "'v cell list"
  | VSeq "'v cell list"

type_synonym 'v rep_vars = "string \<rightharpoonup> 'v rv_value"

text \<open>\<^verbatim>\<open>entities_dict.get(k)\<close>: the value, or \<open>None\<close>.\<close>

definition dict_get :: "(string \<rightharpoonup> string) \<Rightarrow> string \<Rightarrow> 'v rv_value" where
  "dict_get d k = (case d k of None \<Rightarrow> VNone | Some s \<Rightarrow> VStr s)"

text \<open>Lines 97 to 103.\<close>

definition initial_vars :: "string \<Rightarrow> string list \<Rightarrow> 'v rep_vars" where
  "initial_vars bk2_fpath actions =
     (let d = entities_dict bk2_fpath in
      [''filename'' \<mapsto> VStr bk2_fpath,
       ''level'' \<mapsto> dict_get d ''level'',
       ''subject'' \<mapsto> dict_get d ''sub'',
       ''session'' \<mapsto> dict_get d ''ses'',
       ''actions'' \<mapsto> VNames actions []])"

text \<open>Lines 105 to 108: an empty sequence for each name.\<close>

fun init_seqs :: "string list \<Rightarrow> 'v rep_vars \<Rightarrow> 'v rep_vars" where
  "init_seqs [] rv = rv"
| "init_seqs (k # ks) rv = init_seqs ks (rv(k \<mapsto> VSeq []))"

text \<open>
  \<^verbatim>\<open>repetition_variables[k].append(c)\<close>, once the argument has a value: the lookup
  raises \<open>KeyError\<close>, a string or \<open>None\<close> has no \<open>append\<close>.
\<close>

definition append_cell :: "'v rep_vars \<Rightarrow> string \<Rightarrow> 'v cell \<Rightarrow> py_error + 'v rep_vars" where
  "append_cell rv k c =
     (case rv k of
        None \<Rightarrow> Inl KeyError
      | Some (VSeq xs) \<Rightarrow> Inr (rv(k \<mapsto> VSeq (xs @ [c])))
      | Some (VNames ns ex) \<Rightarrow> Inr (rv(k \<mapsto> VNames ns (ex @ [c])))
      | Some (VStr s) \<Rightarrow> Inl AttributeError
      | Some VNone \<Rightarrow> Inl AttributeError)"

text \<open>
  Lines 111 and 112.  An info mapping is a Python dict, given here as the list of its
  items in iteration order (its keys are distinct); \<open>frame_info[key]\<close> for a key of
  \<open>frame_info.keys()\<close> is the value of that item.
\<close>

fun info_loop :: "'v rep_vars \<Rightarrow> (string \<times> 'v) list \<Rightarrow> py_error + 'v rep_vars" where
  "info_loop rv [] = Inr rv"
| "info_loop rv ((key, v) # rest) =
     (case append_cell rv key (Info v) of
        Inl e \<Rightarrow> Inl e
      | Inr rv' \<Rightarrow> info_loop rv' rest)"

text \<open>
  Lines 113 and 114, from \<open>button_idx\<close> on.  The target
  \<open>repetition_variables[button]\<close> and its \<open>append\<close> are evaluated before the argument
  \<open>keys[frame_idx][button_idx]\<close>, so a missing key or a missing method is reported
  before an index out of range.
\<close>

fun buttons_loop ::
  "'v rep_vars \<Rightarrow> bool list list \<Rightarrow> nat \<Rightarrow> nat \<Rightarrow> string list \<Rightarrow> py_error + 'v rep_vars" where
  "buttons_loop rv keys frame_idx button_idx [] = Inr rv"
| "buttons_loop rv keys frame_idx button_idx (button # rest) =
     (case rv button of
        None \<Rightarrow> Inl KeyError
      | Some (VStr s) \<Rightarrow> Inl AttributeError
      | Some VNone \<Rightarrow> Inl AttributeError
      | Some tgt \<Rightarrow>
          (case nth_opt keys frame_idx of
             None \<Rightarrow> Inl IndexError
           | Some row \<Rightarrow>
               (case nth_opt row button_idx of
                  None \<Rightarrow> Inl IndexError
                | Some b \<Rightarrow>
                    (case append_cell rv button (Key b) of
                       Inl e \<Rightarrow> Inl e
                     | Inr rv' \<Rightarrow> buttons_loop rv' keys frame_idx (Suc button_idx) rest))))"

text \<open>
  What has been appended to the list object \<open>actions\<close>, as far as the record still
  holds that object.
\<close>

definition appended :: "'v rep_vars \<Rightarrow> 'v cell list" where
  "appended rv = (case rv ''actions'' of Some (VNames ns ex) \<Rightarrow> ex | _ \<Rightarrow> [])"

text \<open>
  Lines 113 and 114 for what has been appended to \<open>actions\<close>: \<open>enumerate(actions)\<close>
  reaches these elements after the names.  Such an element is looked up as a key of
  the record, whose keys are all strings: \<open>str_of v\<close> is the string that the info
  value \<open>v\<close> is, if it is one; any other value, a button state too, is no key of the
  record and the lookup raises \<open>KeyError\<close>.  (Info values are taken to be hashable.)
\<close>

fun extras_loop ::
  "('v \<Rightarrow> string option) \<Rightarrow> 'v rep_vars \<Rightarrow> bool list list \<Rightarrow> nat \<Rightarrow> nat \<Rightarrow> 'v cell list
     \<Rightarrow> py_error + 'v rep_vars" where
  "extras_loop str_of rv keys frame_idx button_idx [] = Inr rv"
| "extras_loop str_of rv keys frame_idx button_idx (c # rest) =
     (case (case c of Info v \<Rightarrow> str_of v | Key b \<Rightarrow> None) of
        None \<Rightarrow> Inl KeyError
      | Some button \<Rightarrow>
          (case buttons_loop rv keys frame_idx button_idx [button] of
             Inl e \<Rightarrow> Inl e
           | Inr rv' \<Rightarrow> extras_loop str_of rv' keys frame_idx (Suc button_idx) rest))"

text \<open>
  Lines 110 to 114.  The second inner loop goes over the names and then over what
  had been appended to \<open>actions\<close> when it began.  Whatever it appends to \<open>actions\<close>
  itself is a button state, which it reaches next and fails to look up.
\<close>

fun frames_loop ::
  "('v \<Rightarrow> string option) \<Rightarrow> 'v rep_vars \<Rightarrow> bool list list \<Rightarrow> string list \<Rightarrow> nat
     \<Rightarrow> (string \<times> 'v) list list \<Rightarrow> py_error + 'v rep_vars" where
  "frames_loop str_of rv keys actions frame_idx [] = Inr rv"
| "frames_loop str_of rv keys actions frame_idx (frame_info # rest) =
     (case info_loop rv frame_info of
        Inl e \<Rightarrow> Inl e
      | Inr rv1 \<Rightarrow>
          (case buttons_loop rv1 keys frame_idx 0 actions of
             Inl e \<Rightarrow> Inl e
           | Inr rv2 \<Rightarrow>
               (case extras_loop str_of rv2 keys frame_idx (length actions) (appended rv2) of
                  Inl e \<Rightarrow> Inl e
                | Inr rv3 \<Rightarrow>
                    (if length (appended rv2) < length (appended rv3) then Inl KeyError
                     else frames_loop str_of rv3 keys actions (Suc frame_idx) rest))))"

text \<open>The whole function; \<open>info[0]\<close> on an empty list raises \<open>IndexError\<close>.\<close>

definition reformat_info ::
  "('v \<Rightarrow> string option) \<Rightarrow> (string \<times> 'v) list list \<Rightarrow> bool list list \<Rightarrow> string
     \<Rightarrow> string list \<Rightarrow> py_error + 'v rep_vars" where
  "reformat_info str_of info keys bk2_fpath actions =
     (let rv0 = initial_vars bk2_fpath actions in
      case info of
        [] \<Rightarrow> Inl IndexError
      | first # _ \<Rightarrow>
          frames_loop str_of (init_seqs actions (init_seqs (map fst first) rv0))
            keys actions 0 info)"

text \<open>Info values that are numbers: none of them is a string.\<close>

definition not_a_string :: "'v \<Rightarrow> string option" where
  "not_a_string v = None"

text \<open>Reading one entry of a result, to state what a call produced.\<close>

definition result_field :: "py_error + 'v rep_vars \<Rightarrow> string \<Rightarrow> py_error + 'v rv_value option" where
  "result_field r k = (case r of Inl e \<Rightarrow> Inl e | Inr rv \<Rightarrow> Inr (rv k))"

text \<open>
  The inputs on which \<open>reformat_info\<close> runs through with one append per sequence and
  frame: there is a first frame, every frame is a dict with the key set
  of the first, the action names are distinct and none of them is an info key, and
  there is a key vector with a state for every action for each frame.
\<close>

definition aligned_input :: "(string \<times> 'v) list list \<Rightarrow> bool list list \<Rightarrow> string list \<Rightarrow> bool" where
  "aligned_input info keys actions \<longleftrightarrow>
     info \<noteq> [] \<and>
     (\<forall>f \<in> set info. distinct (map fst f) \<and> set (map fst f) = set (map fst (hd info))) \<and>
     distinct actions \<and>
     (\<forall>b \<in> set actions. b \<notin> set (map fst (hd info))) \<and>
     length info \<le> length keys \<and>
     (\<forall>i < length info. length actions \<le> length (keys ! i))"

text \<open>
  The loop invariant after \<open>n\<close> frames: every info key holds a sequence of length \<open>n\<close>,
  the sequence of action \<open>j\<close> holds the \<open>j\<close>-th button state of the first \<open>n\<close> key
  vectors, and every other entry is as \<open>base\<close> has it.
\<close>

definition seq_inv ::
  "string set \<Rightarrow> string list \<Rightarrow> bool list list \<Rightarrow> 'v rep_vars \<Rightarrow> nat \<Rightarrow> 'v rep_vars \<Rightarrow> bool" where
  "seq_inv K actions keys base n rv \<longleftrightarrow>
     (\<forall>k \<in> K. \<exists>xs. rv k = Some (VSeq xs) \<and> length xs = n) \<and>
     (\<forall>j < length actions.
        rv (actions ! j) = Some (VSeq (map (\<lambda>i. Key (keys ! i ! j)) [0..<n]))) \<and>
     (\<forall>k. k \<notin> K \<and> k \<notin> set actions \<longrightarrow> rv k = base k)"

section \<open>replay.py: replay\_bk2\<close>

subsection \<open>The emulator library\<close>

text \<open>
  \<^verbatim>\<open>retro.Movie\<close> and the environment made by \<^verbatim>\<open>retro.make\<close> belong to the emulator
  library, not to this repository; they are modelled by what \<open>replay_bk2\<close> uses of
  them.  A movie file holds the game name, the starting state, the number of players
  and the logged steps; one step tells for button \<open>i\<close> and player \<open>p\<close> whether the
  button is pressed.
\<close>

type_synonym step_keys = "nat \<Rightarrow> nat \<Rightarrow> bool"

record 's bk2 =
  b_game :: string
  b_state :: 's
  b_players :: nat
  b_steps :: "step_keys list"

text \<open>
  The movie object: the file it was loaded from, the steps not yet consumed, the step
  its cursor is on, and whether it has been closed.
\<close>

record 's movie =
  mv_file :: "'s bk2"
  mv_rest :: "step_keys list"
  mv_cur :: step_keys
  mv_closed :: bool

definition Movie :: "'s bk2 \<Rightarrow> 's movie" where
  "Movie f = \<lparr>mv_file = f, mv_rest = b_steps f, mv_cur = (\<lambda>i p. False), mv_closed = False\<rparr>"

text \<open>\<^verbatim>\<open>movie.step()\<close>: move to the next logged step; \<open>False\<close> when there is none left.\<close>

definition movie_step :: "'s movie \<Rightarrow> bool \<times> 's movie" where
  "movie_step m =
     (case mv_rest m of
        [] \<Rightarrow> (False, m)
      | s # ss \<Rightarrow> (True, m\<lparr>mv_rest := ss, mv_cur := s\<rparr>))"

definition get_key :: "'s movie \<Rightarrow> nat \<Rightarrow> nat \<Rightarrow> bool" where
  "get_key m i p = mv_cur m i p"

definition players :: "'s movie \<Rightarrow> nat" where
  "players m = b_players (mv_file m)"

definition movie_close :: "'s movie \<Rightarrow> 's movie" where
  "movie_close m = m\<lparr>mv_closed := True\<rparr>"

text \<open>What one \<^verbatim>\<open>emulator.step(keys)\<close> returns.\<close>

record ('f, 'r, 'v) step_out =
  o_frame :: 'f
  o_rew :: 'r
  o_terminate :: bool
  o_truncate :: bool
  o_info :: "(string \<times> 'v) list"

text \<open>
  The emulator session: its button names, its button count, the state to start
  from, the current state, the game's transition function, and whether it has been
  closed.  Errors of the emulator's own step are outside this model: a step returns.
\<close>

record ('s, 'f, 'r, 'v) emulator =
  buttons :: "string list"
  num_buttons :: nat
  initial_state :: 's
  em_state :: 's
  em_dynamics :: "'s \<Rightarrow> bool list \<Rightarrow> ('f, 'r, 'v) step_out \<times> 's"
  em_closed :: bool

definition emu_reset :: "('s, 'f, 'r, 'v) emulator \<Rightarrow> ('s, 'f, 'r, 'v) emulator" where
  "emu_reset e = e\<lparr>em_state := initial_state e\<rparr>"

definition emu_step ::
  "('s, 'f, 'r, 'v) emulator \<Rightarrow> bool list \<Rightarrow> ('f, 'r, 'v) step_out \<times> ('s, 'f, 'r, 'v) emulator" where
  "emu_step e keys =
     (case em_dynamics e (em_state e) keys of (out, s') \<Rightarrow> (out, e\<lparr>em_state := s'\<rparr>))"

definition emu_close :: "('s, 'f, 'r, 'v) emulator \<Rightarrow> ('s, 'f, 'r, 'v) emulator" where
  "emu_close e = e\<lparr>em_closed := True\<rparr>"

subsection \<open>The generator\<close>

text \<open>
  The arguments of a call: the path, the movie file found there, the flag, the
  optional game name, and \<^verbatim>\<open>retro.make\<close> with the caller's state, scenario and
  integration type, as a function of the game name.
\<close>

record ('s, 'f, 'r, 'v) replay_args =
  bk2_path :: string
  bk2_file :: "'s bk2"
  skip_first_step :: bool
  game :: "string option"
  retro_make :: "string \<Rightarrow> ('s, 'f, 'r, 'v) emulator"

text \<open>The \<open>annotations\<close> dict and the tuple of line 46.\<close>

record ('r, 'v) annotations =
  a_reward :: 'r
  a_done :: bool
  a_info :: "(string \<times> 'v) list"

record ('s, 'f, 'r, 'v) step_record =
  r_frame :: 'f
  r_keys :: "bool list"
  r_annotations :: "('r, 'v) annotations"
  r_truncate :: bool
  r_actions :: "string list"
  r_state :: 's

text \<open>
  A generator object is in one of four places: not yet started (no line of the body
  has run), suspended at the \<open>yield\<close> of line 46 with its locals \<open>movie\<close>, \<open>emulator\<close>
  and \<open>actions\<close>, returned after line 48, or closed by its consumer while it was not
  yet started (\<open>None\<close>) or suspended (with the locals it held).
\<close>

datatype ('s, 'f, 'r, 'v) generator =
    Unstarted
  | Suspended "'s movie" "('s, 'f, 'r, 'v) emulator" "string list"
  | Returned "'s movie" "('s, 'f, 'r, 'v) emulator"
  | Closed "('s movie \<times> ('s, 'f, 'r, 'v) emulator) option"

text \<open>Lines 39 to 42: for every player, one state per button.\<close>

definition collect_keys :: "'s movie \<Rightarrow> ('s, 'f, 'r, 'v) emulator \<Rightarrow> bool list" where
  "collect_keys m e =
     concat (map (\<lambda>p. map (\<lambda>i. get_key m i p) [0..<num_buttons e]) [0..<players m])"

text \<open>
  Lines 38 to 48, entered at the loop test: either one more record and the generator
  suspended at the \<open>yield\<close>, or the end of the loop, the two \<open>close\<close> calls and the
  return.
\<close>

definition loop_head ::
  "'s movie \<Rightarrow> ('s, 'f, 'r, 'v) emulator \<Rightarrow> string list
     \<Rightarrow> ('s, 'f, 'r, 'v) step_record option \<times> ('s, 'f, 'r, 'v) generator" where
  "loop_head m e actions =
     (case movie_step m of
        (False, m') \<Rightarrow> (None, Returned (movie_close m') (emu_close e))
      | (True, m') \<Rightarrow>
          (let keys = collect_keys m' e in
           case emu_step e keys of
             (out, e') \<Rightarrow>
               (Some \<lparr>r_frame = o_frame out, r_keys = keys,
                      r_annotations = \<lparr>a_reward = o_rew out, a_done = o_terminate out,
                                        a_info = o_info out\<rparr>,
                      r_truncate = o_truncate out, r_actions = actions,
                      r_state = em_state e'\<rparr>,
                Suspended m' e' actions)))"

text \<open>Lines 29 and 30: the game named by the caller, or else the movie's own.\<close>

definition chosen_game :: "('s, 'f, 'r, 'v) replay_args \<Rightarrow> string" where
  "chosen_game A = (case game A of None \<Rightarrow> b_game (bk2_file A) | Some n \<Rightarrow> n)"

text \<open>
  Lines 28 to 37, then the loop.  The debug message of line 31 has no part in what the
  generator yields or holds and is left out.
\<close>

definition start ::
  "('s, 'f, 'r, 'v) replay_args
     \<Rightarrow> ('s, 'f, 'r, 'v) step_record option \<times> ('s, 'f, 'r, 'v) generator" where
  "start A =
     (let movie = Movie (bk2_file A);
          emulator = (retro_make A (chosen_game A))\<lparr>initial_state := b_state (mv_file movie)\<rparr>;
          actions = buttons emulator;
          emulator = emu_reset emulator;
          movie = (if skip_first_step A then snd (movie_step movie) else movie)
      in loop_head movie emulator actions)"

text \<open>
  \<^verbatim>\<open>next(g)\<close>: the record yielded, or \<open>None\<close> for \<open>StopIteration\<close>, and the generator
  afterwards.
\<close>

definition gen_next ::
  "('s, 'f, 'r, 'v) replay_args \<Rightarrow> ('s, 'f, 'r, 'v) generator
     \<Rightarrow> ('s, 'f, 'r, 'v) step_record option \<times> ('s, 'f, 'r, 'v) generator" where
  "gen_next A g =
     (case g of
        Unstarted \<Rightarrow> start A
      | Suspended m e actions \<Rightarrow> loop_head m e actions
      | Returned m e \<Rightarrow> (None, g)
      | Closed x \<Rightarrow> (None, g))"

text \<open>
  \<^verbatim>\<open>g.close()\<close>, which is also what happens when the consumer drops a suspended
  generator: \<open>GeneratorExit\<close> is raised at the \<open>yield\<close>.  The body has no \<open>try\<close> around the
  loop, so the exception leaves the body at once and lines 47 and 48 do not run.
\<close>

definition gen_close :: "('s, 'f, 'r, 'v) generator \<Rightarrow> ('s, 'f, 'r, 'v) generator" where
  "gen_close g =
     (case g of
        Unstarted \<Rightarrow> Closed None
      | Suspended m e actions \<Rightarrow> Closed (Some (m, e))
      | Returned m e \<Rightarrow> g
      | Closed x \<Rightarrow> g)"

text \<open>
  Both resources are released: the movie and the emulator that the body has created
  are closed, or the body never ran and created none.
\<close>

definition released :: "('s, 'f, 'r, 'v) generator \<Rightarrow> bool" where
  "released g =
     (case g of
        Unstarted \<Rightarrow> True
      | Suspended m e actions \<Rightarrow> mv_closed m \<and> em_closed e
      | Returned m e \<Rightarrow> mv_closed m \<and> em_closed e
      | Closed None \<Rightarrow> True
      | Closed (Some (m, e)) \<Rightarrow> mv_closed m \<and> em_closed e)"

text \<open>The number of logged steps that a generator can still consume.\<close>

definition pending :: "('s, 'f, 'r, 'v) replay_args \<Rightarrow> ('s, 'f, 'r, 'v) generator \<Rightarrow> nat" where
  "pending A g =
     (case g of
        Unstarted \<Rightarrow> length (b_steps (bk2_file A)) + 2
      | Suspended m e actions \<Rightarrow> length (mv_rest m) + 1
      | Returned m e \<Rightarrow> 0
      | Closed x \<Rightarrow> 0)"

text \<open>
  Iterating the generator to its end, as a \<open>for\<close> loop does: the records in order, and
  the generator left behind.
\<close>

function drain ::
  "('s, 'f, 'r, 'v) replay_args \<Rightarrow> ('s, 'f, 'r, 'v) generator
     \<Rightarrow> ('s, 'f, 'r, 'v) step_record list \<times> ('s, 'f, 'r, 'v) generator" where
  "drain A g =
     (case gen_next A g of
        (None, g') \<Rightarrow> ([], g')
      | (Some r, g') \<Rightarrow> (case drain A g' of (rs, g'') \<Rightarrow> (r # rs, g'')))"
  by pat_completeness auto
termination
proof (relation "measure (\<lambda>(A, g). pending A g)", goal_cases)
  case 1
  show ?case by simp
next
  case (2 A g x g' r)
  then have n: "gen_next A g = (Some r, g')" by simp
  have loop: "pending A h = length (mv_rest m)"
    if "loop_head m e a = (Some r, h)" for m e a h
    using that
    by (auto simp: loop_head_def movie_step_def pending_def Let_def
        split: list.splits prod.splits)
  have "pending A g' < pending A g"
  proof (cases g)
    case Unstarted
    let ?m = "Movie (bk2_file A)"
    let ?m' = "if skip_first_step A then snd (movie_step ?m) else ?m"
    have "length (mv_rest ?m') \<le> length (b_steps (bk2_file A))"
      by (simp add: Movie_def movie_step_def split: list.splits)
    moreover from n Unstarted obtain e a where "loop_head ?m' e a = (Some r, g')"
      by (auto simp: gen_next_def start_def Let_def)
    ultimately show ?thesis
      using loop [of ?m' e a g'] Unstarted by (simp add: pending_def)
  next
    case (Suspended m e a)
    with n have "loop_head m e a = (Some r, g')" by (simp add: gen_next_def)
    from loop [OF this] Suspended show ?thesis
      by (simp add: pending_def)
  next
    case (Returned m e)
    with n show ?thesis by (simp add: gen_next_def)
  next
    case (Closed c)
    with n show ?thesis by (simp add: gen_next_def)
  qed
  then show ?case by simp
qed

declare drain.simps [simp del]

section \<open>replay.py: get\_variables\_from\_replay\<close>

datatype log_entry = LogDebug string | LogInfo string | LogWarning string

text \<open>
  The locals of lines 67 to 77.  \<open>c_annotations\<close> is \<open>None\<close> while \<open>annotations\<close> is
  still the empty dict of line 71; \<open>c_actions\<close> is \<open>None\<close> while the name \<open>actions\<close> is
  not bound, which only the \<open>for\<close> statement does.
\<close>

record ('s, 'f, 'r, 'v) collected =
  replay_frames :: "'f list"
  replay_keys :: "bool list list"
  replay_info :: "(string \<times> 'v) list list"
  replay_states :: "'s list"
  c_annotations :: "('r, 'v) annotations option"
  c_actions :: "string list option"

definition no_records :: "('s, 'f, 'r, 'v) collected" where
  "no_records =
     \<lparr>replay_frames = [], replay_keys = [], replay_info = [], replay_states = [],
      c_annotations = None, c_actions = None\<rparr>"

text \<open>Lines 73 to 77, for one record.\<close>

definition loop_body ::
  "('s, 'f, 'r, 'v) collected \<Rightarrow> ('s, 'f, 'r, 'v) step_record \<Rightarrow> ('s, 'f, 'r, 'v) collected" where
  "loop_body c r =
     \<lparr>replay_frames = replay_frames c @ [r_frame r],
      replay_keys = replay_keys c @ [r_keys r],
      replay_info = replay_info c @ [a_info (r_annotations r)],
      replay_states = replay_states c @ [r_state r],
      c_annotations = Some (r_annotations r),
      c_actions = Some (r_actions r)\<rparr>"

text \<open>
  The function returns its four values; the warning of lines 81 to 84 is given as a
  fifth component.  The info values are the emulator's variables, numbers all of
  them.  The loop body does not touch the generator, so the \<open>for\<close> loop is
  the fold of the body over the drained records.  Evaluating the argument \<open>actions\<close>
  of the call on line 79 raises \<open>UnboundLocalError\<close> when the loop never ran.
\<close>

definition get_variables_from_replay ::
  "('s, 'f, 'r, 'v) replay_args
     \<Rightarrow> py_error + ('v rep_vars \<times> (string \<times> 'v) list list \<times> 'f list \<times> 's list \<times> log_entry list)" where
  "get_variables_from_replay A =
     (let c = foldl loop_body no_records (fst (drain A Unstarted)) in
      case c_actions c of
        None \<Rightarrow> Inl UnboundLocalError
      | Some actions \<Rightarrow>
          (case reformat_info not_a_string (replay_info c) (replay_keys c) (bk2_path A)
                  actions of
             Inl e \<Rightarrow> Inl e
           | Inr repetition_variables \<Rightarrow>
               Inr (repetition_variables, replay_info c, replay_frames c, replay_states c,
                    (if \<not> (case c_annotations c of None \<Rightarrow> False | Some a \<Rightarrow> a_done a)
                     then [LogWarning (''Done condition not satisfied for '' @ bk2_path A
                             @ ''. Consider changing skip_first_step.'')]
                     else []))))"

section \<open>video.py\<close>

subsection \<open>Loading the module\<close>

text \<open>
  The top-level statements of a module, by the name each one binds: an \<open>import\<close>,
  a \<open>from m import n\<close>, a \<open>def\<close>.
\<close>

datatype stmt = Import string | From_import string string | Def string

definition replay_py :: "stmt list" where
  "replay_py =
     [Import ''retro'', Import ''logging'', From_import ''retro.enums'' ''State'',
      Import ''op'', Def ''replay_bk2'', Def ''get_variables_from_replay'',
      Def ''reformat_info'']"

definition video_py :: "stmt list" where
  "video_py =
     [Import ''logging'', Import ''os'', Import ''subprocess'', Import ''tempfile'',
      From_import ''pathlib'' ''Path'', From_import ''typing'' ''Iterable'',
      Import ''np'', Import ''skvideo'', From_import ''PIL'' ''Image'',
      From_import ''.replay'' ''write_wav'',
      Def ''make_gif'', Def ''make_mp4'', Def ''make_webp'']"

text \<open>
  Running the statements in order gives the names the module binds.  \<open>mods\<close> gives
  the names of the modules of this package; a module it does not know is one of the
  installed libraries and is taken to provide the name asked for.  A name that a
  module of the package does not bind makes the \<open>from\<close> import raise \<open>ImportError\<close>.
\<close>

fun exec_module :: "(string \<Rightarrow> string list option) \<Rightarrow> stmt list \<Rightarrow> string list \<Rightarrow> py_error + string list" where
  "exec_module mods [] ns = Inr ns"
| "exec_module mods (Import n # ss) ns = exec_module mods ss (n # ns)"
| "exec_module mods (Def n # ss) ns = exec_module mods ss (n # ns)"
| "exec_module mods (From_import m n # ss) ns =
     (case mods m of
        None \<Rightarrow> exec_module mods ss (n # ns)
      | Some names \<Rightarrow>
          (if n \<in> set names then exec_module mods ss (n # ns) else Inl ImportError))"

definition import_replay :: "py_error + string list" where
  "import_replay = exec_module (\<lambda>m. None) replay_py []"

definition import_video :: "py_error + string list" where
  "import_video =
     (case import_replay of
        Inl e \<Rightarrow> Inl e
      | Inr ns \<Rightarrow> exec_module (\<lambda>m. if m = ''.replay'' then Some ns else None) video_py [])"

text \<open>Reaching a function of the module: import it, then look the name up.\<close>

definition video_attr :: "string \<Rightarrow> py_error + string" where
  "video_attr f =
     (case import_video of
        Inl e \<Rightarrow> Inl e
      | Inr ns \<Rightarrow> (if f \<in> set ns then Inr f else Inl AttributeError))"

subsection \<open>Files, logs and child processes\<close>

text \<open>
  The bodies of the three exporters are modelled as written, on a world that holds
  the files by path, the directories, the log and the trace of what was handed to
  helpers outside this module.  A file holds what was encoded into it.
\<close>

datatype np_dtype = Int16 | Float32 | Float64

record 'a audio =
  dtype :: np_dtype
  samples :: 'a

datatype ('f, 'a) content =
    Video "'f list" nat
  | Wav "'a audio" nat
  | Muxed "('f, 'a) content" "('f, 'a) content"
  | Gif "'f list"
  | Webp "'f list"

datatype event = Wrote_wav string | Spawned "string list"

record ('f, 'a) world =
  files :: "(string \<times> ('f, 'a) content) list"
  dirs :: "string list"
  log :: "log_entry list"
  trace :: "event list"

definition lookup_file :: "('f, 'a) world \<Rightarrow> string \<Rightarrow> ('f, 'a) content option" where
  "lookup_file w p = map_of (files w) p"

definition unlink_missing_ok :: "string \<Rightarrow> ('f, 'a) world \<Rightarrow> ('f, 'a) world" where
  "unlink_missing_ok p w = w\<lparr>files := filter (\<lambda>e. fst e \<noteq> p) (files w)\<rparr>"

definition write_file :: "string \<Rightarrow> ('f, 'a) content \<Rightarrow> ('f, 'a) world \<Rightarrow> ('f, 'a) world" where
  "write_file p c w = w\<lparr>files := (p, c) # filter (\<lambda>e. fst e \<noteq> p) (files w)\<rparr>"

text \<open>
  The surroundings of a call of \<open>make_mp4\<close>, none of them code of this repository:
  \<^item> the name that \<^verbatim>\<open>tempfile.mkdtemp\<close> picks;
  \<^item> whether the video library has an \<open>ffmpeg\<close> of its own, which it looks for when it
    is imported or is told about;
  \<^item> whether the child process \<open>ffmpeg\<close> is found on the path when it is started, and
    the status it exits with;
  \<^item> what a multiplexer that exits with another status than 0 has left at its output
    path, \<open>None\<close> when it has not touched it (the command carries \<open>-y\<close>);
  \<^item> whether the operating system can rename the first path to the second: both on
    one file system, the target's directory there, the target not a directory;
  \<^item> numpy's cast of the samples to 16-bit integers.
\<close>

datatype mux_tool = Missing | Exits int

record ('f, 'a) env =
  tmp_name :: string
  writer_ffmpeg :: bool
  ffmpeg :: mux_tool
  partial_output :: "('f, 'a) content option"
  renamable :: "string \<Rightarrow> string \<Rightarrow> bool"
  cast_int16 :: "'a \<Rightarrow> 'a"

text \<open>
  \<^verbatim>\<open>Path.replace\<close>, a rename: the source must exist, and the operating system must be
  able to rename it to the target, or the call raises \<open>OSError\<close> and nothing has moved.
  An existing target is overwritten.
\<close>

definition path_replace ::
  "('f, 'a) env \<Rightarrow> string \<Rightarrow> string \<Rightarrow> ('f, 'a) world \<Rightarrow> py_error + ('f, 'a) world" where
  "path_replace E src dst w =
     (case lookup_file w src of
        None \<Rightarrow> Inl FileNotFoundError
      | Some c \<Rightarrow>
          (if renamable E src dst then Inr (write_file dst c (unlink_missing_ok src w))
           else Inl OSError))"

text \<open>\<^verbatim>\<open>Path(d) / name\<close>.\<close>

definition path_join :: "string \<Rightarrow> string \<Rightarrow> string" where
  "path_join d name = d @ ''/'' @ name"

definition inside :: "string \<Rightarrow> string \<Rightarrow> bool" where
  "inside d p = prefix (d @ ''/'') p"

text \<open>\<^verbatim>\<open>os.rmdir\<close>: the directory must exist and be empty.\<close>

definition rmdir :: "string \<Rightarrow> ('f, 'a) world \<Rightarrow> py_error + ('f, 'a) world" where
  "rmdir d w =
     (if d \<notin> set (dirs w) then Inl FileNotFoundError
      else if list_ex (\<lambda>e. inside d (fst e)) (files w) then Inl OSError
      else Inr (w\<lparr>dirs := removeAll d (dirs w)\<rparr>))"

definition mkdtemp :: "('f, 'a) env \<Rightarrow> ('f, 'a) world \<Rightarrow> string \<times> ('f, 'a) world" where
  "mkdtemp E w = (tmp_name E, w\<lparr>dirs := tmp_name E # dirs w\<rparr>)"

text \<open>
  \<^verbatim>\<open>mkdtemp\<close> creates a directory that did not exist before; nothing is in it, and the
  caller's output path, chosen before the call, does not lie in it.
\<close>

definition fresh_tmp :: "('f, 'a) env \<Rightarrow> ('f, 'a) world \<Rightarrow> string \<Rightarrow> bool" where
  "fresh_tmp E w movie_fname \<longleftrightarrow>
     tmp_name E \<notin> set (dirs w) \<and>
     \<not> list_ex (\<lambda>e. inside (tmp_name E) (fst e)) (files w) \<and>
     \<not> inside (tmp_name E) movie_fname"

text \<open>
  Modelled from the spec: \<open>write_wav\<close> is imported from \<^verbatim>\<open>replay.py\<close>, which does not
  define it.  The spec has \<open>make_mp4\<close> "write a temporary waveform file" from the
  samples and the sample rate at this point.
\<close>

definition write_wav :: "'a audio \<Rightarrow> nat \<Rightarrow> string \<Rightarrow> ('f, 'a) world \<Rightarrow> ('f, 'a) world" where
  "write_wav a sample_rate p w =
     (write_file p (Wav a sample_rate) w)\<lparr>trace := trace w @ [Wrote_wav p]\<rparr>"

text \<open>
  \<^verbatim>\<open>subprocess.run(cmd, check=True, ...)\<close> for the command of lines 69 to 82:
  \<open>FileNotFoundError\<close> when the binary is not found, \<open>CalledProcessError\<close> when it
  exits with a status other than 0.  On status 0 the multiplexer has written the
  output, the last argument, from its two inputs, the arguments after \<open>-i\<close>; on
  another status the output path holds what the surroundings say it left there.
\<close>

definition run_ffmpeg ::
  "('f, 'a) env \<Rightarrow> string \<Rightarrow> string \<Rightarrow> string \<Rightarrow> ('f, 'a) world
     \<Rightarrow> py_error option \<times> ('f, 'a) world" where
  "run_ffmpeg E video_in audio_in out w =
     (let cmd = [''ffmpeg'', ''-y'', ''-i'', video_in, ''-i'', audio_in,
                 ''-c:v'', ''copy'', ''-c:a'', ''aac'', ''-shortest'', out];
          w' = w\<lparr>trace := trace w @ [Spawned cmd]\<rparr>
      in case ffmpeg E of
           Missing \<Rightarrow> (Some FileNotFoundError, w')
         | Exits rc \<Rightarrow>
             (if rc \<noteq> 0
              then (Some (CalledProcessError rc),
                    (case partial_output E of
                       None \<Rightarrow> w'
                     | Some c \<Rightarrow> write_file out c w'))
              else (case (lookup_file w' video_in, lookup_file w' audio_in) of
                      (Some v, Some a) \<Rightarrow> (None, write_file out (Muxed v a) w')
                    | _ \<Rightarrow> (None, w'))))"

subsection \<open>make\_gif and make\_webp\<close>

text \<open>
  The list comprehension turns every frame into an image; the list is empty exactly
  when there is no frame.  \<open>save\<close> belongs to the imaging library and is taken to write
  the file.
\<close>

definition make_gif :: "'f list \<Rightarrow> string \<Rightarrow> ('f, 'a) world \<Rightarrow> py_error option \<times> ('f, 'a) world" where
  "make_gif selected_frames movie_fname w =
     (let frame_list = selected_frames in
      if frame_list = []
      then (None, w\<lparr>log := log w @ [LogWarning (''No frames to save in '' @ movie_fname)]\<rparr>)
      else (None, write_file movie_fname (Gif frame_list) w))"

definition make_webp :: "'f list \<Rightarrow> string \<Rightarrow> ('f, 'a) world \<Rightarrow> py_error option \<times> ('f, 'a) world" where
  "make_webp selected_frames movie_fname w =
     (let frame_list = selected_frames in
      if frame_list = []
      then (None, w\<lparr>log := log w @ [LogWarning (''No frames to save in '' @ movie_fname)]\<rparr>)
      else (None, write_file movie_fname (Webp frame_list) w))"

subsection \<open>make\_mp4\<close>

text \<open>
  Lines 88 to 94, the \<open>finally\<close> block: both temporary files are unlinked, and an
  \<open>OSError\<close> of \<open>rmdir\<close> is swallowed.
\<close>

definition cleanup :: "string \<Rightarrow> string \<Rightarrow> string \<Rightarrow> ('f, 'a) world \<Rightarrow> ('f, 'a) world" where
  "cleanup temp_audio temp_video temp_dir w =
     (let w' = unlink_missing_ok temp_video (unlink_missing_ok temp_audio w) in
      case rmdir temp_dir w' of
        Inl e \<Rightarrow> w'
      | Inr w'' \<Rightarrow> w'')"

text \<open>
  Lines 62 to 94, with audio and a sample rate.  The \<open>except\<close> clause turns the
  \<open>FileNotFoundError\<close> of the child process into a \<open>RuntimeError\<close>; any other outcome
  passes through; the \<open>finally\<close> block runs in every case.
\<close>

definition ffmpeg_required :: string where
  "ffmpeg_required = ''ffmpeg binary is required to mux audio into MP4''"

definition mux_audio ::
  "('f, 'a) env \<Rightarrow> string \<Rightarrow> string \<Rightarrow> string \<Rightarrow> 'a audio \<Rightarrow> nat \<Rightarrow> ('f, 'a) world
     \<Rightarrow> py_error option \<times> ('f, 'a) world" where
  "mux_audio E temp_dir temp_video final_path audio sample_rate w =
     (let (audio, w) =
            (if dtype audio \<noteq> Int16
             then (\<lparr>dtype = Int16, samples = cast_int16 E (samples audio)\<rparr>,
                   w\<lparr>log := log w @ [LogInfo ''Casting audio to int16 before muxing'']\<rparr>)
             else (audio, w));
          temp_audio = path_join temp_dir ''audio.wav'';
          w = write_wav audio sample_rate temp_audio w
      in case run_ffmpeg E temp_video temp_audio final_path w of
           (Some FileNotFoundError, w) \<Rightarrow>
             (Some (RuntimeError ffmpeg_required), cleanup temp_audio temp_video temp_dir w)
         | (outcome, w) \<Rightarrow> (outcome, cleanup temp_audio temp_video temp_dir w))"

text \<open>
  Lines 46 to 53.  The writer belongs to the video library.  Creating it raises
  \<open>AssertionError\<close> when the library has no \<open>ffmpeg\<close>.  It starts its encoder with the
  first frame it is given, and \<open>close\<close> on a writer that was given no frame raises
  \<open>AttributeError\<close>.  Otherwise the frames are encoded into the temporary file.
\<close>

definition write_video ::
  "('f, 'a) env \<Rightarrow> 'f list \<Rightarrow> nat \<Rightarrow> string \<Rightarrow> ('f, 'a) world
     \<Rightarrow> py_error option \<times> ('f, 'a) world" where
  "write_video E selected_frames fps temp_video w =
     (if \<not> writer_ffmpeg E then (Some AssertionError, w)
      else if selected_frames = [] then (Some AttributeError, w)
      else (None, write_file temp_video (Video selected_frames fps) w))"

text \<open>
  The whole function.  Lines 43 to 67 are under no \<open>try\<close>: an error of the writer
  leaves the function at once, with the temporary directory in place.  So does an
  error of the rename or of \<open>rmdir\<close> on lines 58 and 59.  An error is returned with
  the world as the call left it.
\<close>

definition make_mp4 ::
  "('f, 'a) env \<Rightarrow> 'f list \<Rightarrow> string \<Rightarrow> 'a audio option \<Rightarrow> nat option \<Rightarrow> nat
     \<Rightarrow> ('f, 'a) world \<Rightarrow> py_error option \<times> ('f, 'a) world" where
  "make_mp4 E selected_frames movie_fname audio sample_rate fps w =
     (case mkdtemp E w of
        (temp_dir, w) \<Rightarrow>
          (let temp_video = path_join temp_dir ''video_only.mp4'' in
           case write_video E selected_frames fps temp_video w of
             (Some e, w) \<Rightarrow> (Some e, w)
           | (None, w) \<Rightarrow>
               (let final_path = movie_fname in
                case (audio, sample_rate) of
                  (Some a, Some r) \<Rightarrow> mux_audio E temp_dir temp_video final_path a r w
                | _ \<Rightarrow>
                    (case path_replace E temp_video final_path w of
                       Inl e \<Rightarrow> (Some e, w)
                     | Inr w \<Rightarrow>
                         (case rmdir temp_dir w of
                            Inl e \<Rightarrow> (Some e, w)
                          | Inr w \<Rightarrow> (None, w))))))"

section \<open>Auxiliary definitions\<close>

text \<open>
  The movie and the emulator with which the generator enters its loop for the first
  time.
\<close>

definition first_movie :: "('s, 'f, 'r, 'v) replay_args \<Rightarrow> 's movie" where
  "first_movie A =
     (if skip_first_step A then snd (movie_step (Movie (bk2_file A))) else Movie (bk2_file A))"

definition first_emulator :: "('s, 'f, 'r, 'v) replay_args \<Rightarrow> ('s, 'f, 'r, 'v) emulator" where
  "first_emulator A =
     emu_reset ((retro_make A (chosen_game A))\<lparr>initial_state := b_state (bk2_file A)\<rparr>)"

text \<open>
  No file of the world lies in the directory.
\<close>

definition empty_dir :: "string \<Rightarrow> ('f, 'a) world \<Rightarrow> bool" where
  "empty_dir d w \<longleftrightarrow> (\<forall>e \<in> set (files w). \<not> inside d (fst e))"

text \<open>
  The two temporary paths of \<open>make_mp4\<close>, and the world in which it starts the child
  process: the directory made, the silent video and the waveform written.
\<close>

definition temp_video_of :: "('f, 'a) env \<Rightarrow> string" where
  "temp_video_of E = path_join (tmp_name E) ''video_only.mp4''"

definition temp_audio_of :: "('f, 'a) env \<Rightarrow> string" where
  "temp_audio_of E = path_join (tmp_name E) ''audio.wav''"

definition staged :: "('f, 'a) env \<Rightarrow> 'f list \<Rightarrow> nat \<Rightarrow> 'a audio \<Rightarrow> nat \<Rightarrow> ('f, 'a) world \<Rightarrow> ('f, 'a) world" where
  "staged E fr fps a r w =
     (let w2 = write_file (temp_video_of E) (Video fr fps) (w\<lparr>dirs := tmp_name E # dirs w\<rparr>) in
      if dtype a \<noteq> Int16
      then write_wav \<lparr>dtype = Int16, samples = cast_int16 E (samples a)\<rparr> r (temp_audio_of E)
             (w2\<lparr>log := log w2 @ [LogInfo ''Casting audio to int16 before muxing'']\<rparr>)
      else write_wav a r (temp_audio_of E) w2)"

text \<open>
  What the \<open>except\<close> clause makes of the outcome of the child process.
\<close>

definition reraise :: "py_error option \<Rightarrow> py_error option" where
  "reraise x = (if x = Some FileNotFoundError then Some (RuntimeError ffmpeg_required) else x)"

text \<open>A record with its strings replaced by \<open>None\<close>.\<close>

definition blank :: "'v rv_value \<Rightarrow> 'v rv_value" where
  "blank v = (case v of VStr s \<Rightarrow> VNone | _ \<Rightarrow> v)"

definition blanked :: "'v rep_vars \<Rightarrow> 'v rep_vars" where
  "blanked rv = (\<lambda>k. map_option blank (rv k))"

text \<open>The strings and the \<open>None\<close> entries of the first record are entries of the second.\<close>

definition kept :: "'v rep_vars \<Rightarrow> 'v rep_vars \<Rightarrow> bool" where
  "kept rv rv' \<longleftrightarrow>
     (\<forall>k. (rv k = Some VNone \<longrightarrow> rv' k = Some VNone) \<and>
          (\<forall>s. rv k = Some (VStr s) \<longrightarrow> rv' k = Some (VStr s)))"

subsection \<open>Example inputs\<close>

text \<open>
  A game whose state counts its steps, with two buttons, and a movie file for it with
  the given logged steps.
\<close>

definition demo_dynamics :: "nat \<Rightarrow> bool list \<Rightarrow> (nat, int, int) step_out \<times> nat" where
  "demo_dynamics s ks =
     (\<lparr>o_frame = s, o_rew = 0, o_terminate = False, o_truncate = False,
       o_info = [(''score'', int s)]\<rparr>, Suc s)"

definition demo_emulator :: "string \<Rightarrow> (nat, nat, int, int) emulator" where
  "demo_emulator g =
     \<lparr>buttons = [''A'', ''B''], num_buttons = 2, initial_state = 0, em_state = 0,
      em_dynamics = demo_dynamics, em_closed = False\<rparr>"

definition demo_args :: "bool \<Rightarrow> step_keys list \<Rightarrow> (nat, nat, int, int) replay_args" where
  "demo_args skip steps =
     \<lparr>bk2_path = ''sub-01_ses-02_level-W1_run-1.bk2'',
      bk2_file = \<lparr>b_game = ''Game'', b_state = 7, b_players = 1, b_steps = steps\<rparr>,
      skip_first_step = skip, game = None, retro_make = demo_emulator\<rparr>"

text \<open>
  Two frames; a world with one older file; the surroundings of a call with the given states of
  the video library's and of the child process's \<open>ffmpeg\<close>, where the paths under
  \<^verbatim>\<open>/mnt/\<close> are on another file system than the temporary directory; and three audio
  samples of the given type.
\<close>

definition demo_env :: "bool \<Rightarrow> mux_tool \<Rightarrow> (nat, int list) env" where
  "demo_env lib t =
     \<lparr>tmp_name = ''/tmp/cneuromod_vg_utils_ab12'', writer_ffmpeg = lib, ffmpeg = t,
      partial_output = None, renamable = (\<lambda>src dst. \<not> prefix ''/mnt/'' dst),
      cast_int16 = id\<rparr>"

definition demo_frames :: "nat list" where
  "demo_frames = [1, 2]"

definition demo_world :: "(nat, int list) world" where
  "demo_world = \<lparr>files = [(''old.gif'', Gif [0])], dirs = [''/tmp''], log = [], trace = []\<rparr>"

definition demo_audio :: "np_dtype \<Rightarrow> int list audio" where
  "demo_audio t = \<lparr>dtype = t, samples = [0, 1, -1]\<rparr>"

section \<open>Properties of reformat\_info\<close>

lemma nth_opt_eq: "nth_opt xs n = (if n < length xs then Some (xs ! n) else None)"
  by (induction xs n rule: nth_opt.induct) auto

lemma init_seqs_apply:
  "init_seqs ks rv k = (if k \<in> set ks then Some (VSeq []) else rv k)"
  by (induction ks arbitrary: rv) auto

lemma info_loop_seqs:
  assumes "distinct (map fst f)"
    and "\<forall>k \<in> set (map fst f). \<exists>xs. rv k = Some (VSeq xs)"
  shows "\<exists>rv'. info_loop rv f = Inr rv' \<and>
           (\<forall>k. k \<notin> set (map fst f) \<longrightarrow> rv' k = rv k) \<and>
           (\<forall>k \<in> set (map fst f). \<exists>xs c. rv k = Some (VSeq xs) \<and> rv' k = Some (VSeq (xs @ [c])))"
  using assms
proof (induction f arbitrary: rv)
  case Nil
  then show ?case by simp
next
  case (Cons a f)
  obtain key v where a: "a = (key, v)" by (cases a)
  from Cons.prems obtain xs where xs: "rv key = Some (VSeq xs)"
    by (auto simp: a)
  let ?rv1 = "rv(key \<mapsto> VSeq (xs @ [Info v]))"
  have d: "distinct (map fst f)" and nk: "key \<notin> set (map fst f)"
    using Cons.prems(1) by (auto simp: a)
  have pre: "\<forall>k \<in> set (map fst f). \<exists>ys. ?rv1 k = Some (VSeq ys)"
    using Cons.prems(2) by (auto simp: a)
  from Cons.IH [OF d pre] obtain rv' where
    r: "info_loop ?rv1 f = Inr rv'"
    and o: "\<forall>k. k \<notin> set (map fst f) \<longrightarrow> rv' k = ?rv1 k"
    and i: "\<forall>k \<in> set (map fst f). \<exists>ys c. ?rv1 k = Some (VSeq ys) \<and> rv' k = Some (VSeq (ys @ [c]))"
    by blast
  have "info_loop rv (a # f) = Inr rv'"
    by (simp add: a append_cell_def xs r)
  moreover have "\<forall>k. k \<notin> set (map fst (a # f)) \<longrightarrow> rv' k = rv k"
    using o by (auto simp: a)
  moreover have "\<forall>k \<in> set (map fst (a # f)). \<exists>ys c. rv k = Some (VSeq ys) \<and> rv' k = Some (VSeq (ys @ [c]))"
  proof
    fix k assume k: "k \<in> set (map fst (a # f))"
    show "\<exists>ys c. rv k = Some (VSeq ys) \<and> rv' k = Some (VSeq (ys @ [c]))"
    proof (cases "k = key")
      case True
      with o nk xs show ?thesis by auto
    next
      case False
      with k have kf: "k \<in> set (map fst f)" by (auto simp: a)
      with i False show ?thesis by auto
    qed
  qed
  ultimately show ?case by blast
qed

lemma buttons_loop_seqs:
  assumes "distinct bs"
    and "\<forall>b \<in> set bs. \<exists>xs. rv b = Some (VSeq xs)"
    and "fi < length keys"
    and "bi + length bs \<le> length (keys ! fi)"
  shows "\<exists>rv'. buttons_loop rv keys fi bi bs = Inr rv' \<and>
           (\<forall>k. k \<notin> set bs \<longrightarrow> rv' k = rv k) \<and>
           (\<forall>j < length bs. \<exists>xs. rv (bs ! j) = Some (VSeq xs) \<and>
               rv' (bs ! j) = Some (VSeq (xs @ [Key (keys ! fi ! (bi + j))])))"
  using assms
proof (induction bs arbitrary: rv bi)
  case Nil
  then show ?case by simp
next
  case (Cons b bs)
  from Cons.prems obtain xs where xs: "rv b = Some (VSeq xs)" by auto
  let ?c = "Key (keys ! fi ! bi)"
  let ?rv1 = "rv(b \<mapsto> VSeq (xs @ [?c]))"
  have d: "distinct bs" and nb: "b \<notin> set bs" using Cons.prems(1) by auto
  have pre: "\<forall>k \<in> set bs. \<exists>ys. ?rv1 k = Some (VSeq ys)"
    using Cons.prems(2) by auto
  have len: "Suc bi + length bs \<le> length (keys ! fi)" and bi: "bi < length (keys ! fi)"
    using Cons.prems(4) by auto
  from Cons.IH [OF d pre Cons.prems(3) len] obtain rv' where
    r: "buttons_loop ?rv1 keys fi (Suc bi) bs = Inr rv'"
    and o: "\<forall>k. k \<notin> set bs \<longrightarrow> rv' k = ?rv1 k"
    and i: "\<forall>j < length bs. \<exists>ys. ?rv1 (bs ! j) = Some (VSeq ys) \<and>
               rv' (bs ! j) = Some (VSeq (ys @ [Key (keys ! fi ! (Suc bi + j))]))"
    by blast
  have "buttons_loop rv keys fi bi (b # bs) = Inr rv'"
    using Cons.prems(3) bi by (simp add: xs nth_opt_eq append_cell_def r)
  moreover have "\<forall>k. k \<notin> set (b # bs) \<longrightarrow> rv' k = rv k"
    using o by auto
  moreover have "\<forall>j < length (b # bs). \<exists>ys. rv ((b # bs) ! j) = Some (VSeq ys) \<and>
               rv' ((b # bs) ! j) = Some (VSeq (ys @ [Key (keys ! fi ! (bi + j))]))"
  proof (intro allI impI)
    fix j assume j: "j < length (b # bs)"
    show "\<exists>ys. rv ((b # bs) ! j) = Some (VSeq ys) \<and>
               rv' ((b # bs) ! j) = Some (VSeq (ys @ [Key (keys ! fi ! (bi + j))]))"
    proof (cases j)
      case 0
      with o nb xs show ?thesis by auto
    next
      case (Suc j')
      with j have j': "j' < length bs" by simp
      then have ne: "bs ! j' \<noteq> b" using nb by (metis nth_mem)
      from i j' obtain ys where "?rv1 (bs ! j') = Some (VSeq ys)"
        and "rv' (bs ! j') = Some (VSeq (ys @ [Key (keys ! fi ! (Suc bi + j'))]))" by blast
      with ne Suc show ?thesis by auto
    qed
  qed
  ultimately show ?case by blast
qed

lemma frame_step_inv:
  assumes inv: "seq_inv K actions keys base n rv"
    and f: "distinct (map fst f)" "set (map fst f) = K"
    and a: "distinct actions" "\<forall>b \<in> set actions. b \<notin> K"
    and n: "n < length keys" "length actions \<le> length (keys ! n)"
  shows "\<exists>rv1 rv2. info_loop rv f = Inr rv1 \<and> buttons_loop rv1 keys n 0 actions = Inr rv2 \<and>
           seq_inv K actions keys base (Suc n) rv2"
proof -
  have pre1: "\<forall>k \<in> set (map fst f). \<exists>xs. rv k = Some (VSeq xs)"
    using inv f(2) unfolding seq_inv_def by blast
  from info_loop_seqs [OF f(1) pre1] obtain rv1 where
    r1: "info_loop rv f = Inr rv1"
    and o1: "\<forall>k. k \<notin> K \<longrightarrow> rv1 k = rv k"
    and i1: "\<forall>k \<in> K. \<exists>xs c. rv k = Some (VSeq xs) \<and> rv1 k = Some (VSeq (xs @ [c]))"
    unfolding f(2) by blast
  have act: "\<forall>j < length actions. rv1 (actions ! j) = Some (VSeq (map (\<lambda>i. Key (keys ! i ! j)) [0..<n]))"
    using inv a(2) o1 unfolding seq_inv_def by (metis nth_mem)
  have pre2: "\<forall>b \<in> set actions. \<exists>xs. rv1 b = Some (VSeq xs)"
    using act by (metis in_set_conv_nth)
  have len: "0 + length actions \<le> length (keys ! n)" using n(2) by simp
  from buttons_loop_seqs [OF a(1) pre2 n(1) len] obtain rv2 where
    r2: "buttons_loop rv1 keys n 0 actions = Inr rv2"
    and o2: "\<forall>k. k \<notin> set actions \<longrightarrow> rv2 k = rv1 k"
    and i2: "\<forall>j < length actions. \<exists>xs. rv1 (actions ! j) = Some (VSeq xs) \<and>
               rv2 (actions ! j) = Some (VSeq (xs @ [Key (keys ! n ! (0 + j))]))"
    by blast
  have c1: "\<forall>k \<in> K. \<exists>xs. rv2 k = Some (VSeq xs) \<and> length xs = Suc n"
  proof
    fix k assume k: "k \<in> K"
    then have "k \<notin> set actions" using a(2) by blast
    then have e: "rv2 k = rv1 k" using o2 by blast
    from inv k obtain xs where x: "rv k = Some (VSeq xs)" "length xs = n"
      unfolding seq_inv_def by blast
    from i1 k x obtain c where "rv1 k = Some (VSeq (xs @ [c]))" by force
    with e x show "\<exists>xs. rv2 k = Some (VSeq xs) \<and> length xs = Suc n" by simp
  qed
  have c2: "\<forall>j < length actions.
        rv2 (actions ! j) = Some (VSeq (map (\<lambda>i. Key (keys ! i ! j)) [0..<Suc n]))"
    using act i2 by force
  have c3: "\<forall>k. k \<notin> K \<and> k \<notin> set actions \<longrightarrow> rv2 k = base k"
    using inv o1 o2 unfolding seq_inv_def by simp
  from r1 r2 c1 c2 c3 show ?thesis unfolding seq_inv_def by blast
qed

lemma seq_inv_is_seq:
  assumes "seq_inv K actions keys base n rv" and "k \<in> K \<or> k \<in> set actions"
  shows "\<exists>xs. rv k = Some (VSeq xs) \<and> length xs = n"
proof (cases "k \<in> K")
  case True
  with assms(1) show ?thesis unfolding seq_inv_def by blast
next
  case False
  with assms(2) obtain j where j: "j < length actions" "actions ! j = k"
    by (auto simp: in_set_conv_nth)
  from assms(1) j(1) have "rv (actions ! j) = Some (VSeq (map (\<lambda>i. Key (keys ! i ! j)) [0..<n]))"
    unfolding seq_inv_def by blast
  with j(2) show ?thesis by simp
qed

lemma frames_loop_step:
  assumes "info_loop rv f = Inr rv1"
    and "buttons_loop rv1 keys n 0 actions = Inr rv2"
    and "rv2 ''actions'' = Some (VSeq xs) \<or> rv2 ''actions'' = Some (VNames ns [])"
  shows "frames_loop str_of rv keys actions n (f # rest) = frames_loop str_of rv2 keys actions (Suc n) rest"
  using assms by (auto simp: appended_def)

lemma frames_loop_inv:
  assumes "seq_inv K actions keys base n rv"
    and "\<forall>f \<in> set rest. distinct (map fst f) \<and> set (map fst f) = K"
    and "distinct actions" "\<forall>b \<in> set actions. b \<notin> K"
    and "n + length rest \<le> length keys"
    and "\<forall>i < n + length rest. length actions \<le> length (keys ! i)"
    and "''actions'' \<notin> K \<and> ''actions'' \<notin> set actions \<longrightarrow> base ''actions'' = Some (VNames ns [])"
  shows "\<exists>rv'. frames_loop str_of rv keys actions n rest = Inr rv' \<and>
           seq_inv K actions keys base (n + length rest) rv'"
  using assms
proof (induction rest arbitrary: rv n)
  case Nil
  then show ?case by simp
next
  case (Cons f rest)
  have f: "distinct (map fst f)" "set (map fst f) = K" using Cons.prems(2) by auto
  have n: "n < length keys" "length actions \<le> length (keys ! n)"
    using Cons.prems(5,6) by auto
  from frame_step_inv [OF Cons.prems(1) f Cons.prems(3,4) n] obtain rv1 rv2 where
    r1: "info_loop rv f = Inr rv1" and r2: "buttons_loop rv1 keys n 0 actions = Inr rv2"
    and inv2: "seq_inv K actions keys base (Suc n) rv2" by blast
  have noex: "(\<exists>xs. rv2 ''actions'' = Some (VSeq xs)) \<or> rv2 ''actions'' = Some (VNames ns [])"
  proof (cases "''actions'' \<in> K \<or> ''actions'' \<in> set actions")
    case True
    from seq_inv_is_seq [OF inv2 True] show ?thesis by blast
  next
    case False
    then have "rv2 ''actions'' = base ''actions''"
      using inv2 unfolding seq_inv_def by blast
    with False Cons.prems(7) show ?thesis by simp
  qed
  have step: "frames_loop str_of rv keys actions n (f # rest) = frames_loop str_of rv2 keys actions (Suc n) rest"
    using noex frames_loop_step [OF r1 r2] by blast
  have p2: "\<forall>f \<in> set rest. distinct (map fst f) \<and> set (map fst f) = K"
    using Cons.prems(2) by simp
  have p5: "Suc n + length rest \<le> length keys" using Cons.prems(5) by simp
  have p6: "\<forall>i < Suc n + length rest. length actions \<le> length (keys ! i)"
    using Cons.prems(6) by simp
  from Cons.IH [OF inv2 p2 Cons.prems(3,4) p5 p6 Cons.prems(7)] obtain rv' where
    r: "frames_loop str_of rv2 keys actions (Suc n) rest = Inr rv'"
    and inv': "seq_inv K actions keys base (Suc n + length rest) rv'" by blast
  from step r inv' show ?case by simp
qed

lemma initial_vars_actions: "initial_vars p actions ''actions'' = Some (VNames actions [])"
  by (simp add: initial_vars_def Let_def)

lemma reformat_info_aligned:
  assumes "aligned_input info keys actions"
  shows "\<exists>rv. reformat_info str_of info keys p actions = Inr rv \<and>
           seq_inv (set (map fst (hd info))) actions keys (initial_vars p actions) (length info) rv"
proof -
  from assms obtain first rest where info: "info = first # rest"
    unfolding aligned_input_def by (cases info) auto
  let ?K = "set (map fst first)"
  let ?base = "initial_vars p actions :: 'a rep_vars"
  let ?rv = "init_seqs actions (init_seqs (map fst first) ?base)"
  have disj: "\<forall>b \<in> set actions. b \<notin> ?K" and dist: "distinct actions"
    using assms unfolding aligned_input_def info by auto
  have inv0: "seq_inv ?K actions keys ?base 0 ?rv"
    unfolding seq_inv_def by (simp add: init_seqs_apply)
  have fr: "\<forall>f \<in> set info. distinct (map fst f) \<and> set (map fst f) = ?K"
    using assms unfolding aligned_input_def info by simp
  have l1: "0 + length info \<le> length keys"
    and l2: "\<forall>i < 0 + length info. length actions \<le> length (keys ! i)"
    using assms unfolding aligned_input_def by auto
  have al: "''actions'' \<notin> ?K \<and> ''actions'' \<notin> set actions \<longrightarrow>
      ?base ''actions'' = Some (VNames actions [])"
    by (simp add: initial_vars_actions)
  from frames_loop_inv [OF inv0 fr dist disj l1 l2 al] obtain rv' where
    "frames_loop str_of ?rv keys actions 0 info = Inr rv'"
    and "seq_inv ?K actions keys ?base (0 + length info) rv'" by blast
  moreover have "reformat_info str_of info keys p actions = frames_loop str_of ?rv keys actions 0 info"
    by (simp add: reformat_info_def info)
  ultimately show ?thesis by (simp add: info)
qed

text \<open>
  Claim C2, as amended.  On aligned input \<open>reformat_info\<close> returns a record in which
  the sequence of every info key of the first frame and of every action name has as
  many elements as there are frames, and element \<open>i\<close> of the sequence of action \<open>j\<close> is
  \<open>keys[i][j]\<close>.
\<close>

theorem reformat_info_sequences:
  assumes "aligned_input info keys actions"
  shows "\<exists>rv. reformat_info str_of info keys p actions = Inr rv \<and>
           (\<forall>k \<in> set (map fst (hd info)) \<union> set actions.
              \<exists>xs. rv k = Some (VSeq xs) \<and> length xs = length info) \<and>
           (\<forall>j < length actions. \<forall>i < length info.
              \<exists>xs. rv (actions ! j) = Some (VSeq xs) \<and> xs ! i = Key (keys ! i ! j))"
proof -
  from reformat_info_aligned [OF assms] obtain rv where
    r: "reformat_info str_of info keys p actions = Inr rv"
    and inv: "seq_inv (set (map fst (hd info))) actions keys (initial_vars p actions) (length info) rv"
    by blast
  have a: "\<forall>k \<in> set (map fst (hd info)) \<union> set actions.
              \<exists>xs. rv k = Some (VSeq xs) \<and> length xs = length info"
    using seq_inv_is_seq [OF inv] by blast
  have b: "\<forall>j < length actions. \<forall>i < length info.
              \<exists>xs. rv (actions ! j) = Some (VSeq xs) \<and> xs ! i = Key (keys ! i ! j)"
  proof (intro allI impI)
    fix j i assume j: "j < length actions" and i: "i < length info"
    from inv j have "rv (actions ! j) = Some (VSeq (map (\<lambda>i. Key (keys ! i ! j)) [0..<length info]))"
      unfolding seq_inv_def by blast
    moreover have "map (\<lambda>i. Key (keys ! i ! j)) [0..<length info] ! i = Key (keys ! i ! j)"
      using i by simp
    ultimately show "\<exists>xs. rv (actions ! j) = Some (VSeq xs) \<and> xs ! i = Key (keys ! i ! j)"
      by blast
  qed
  from r a b show ?thesis by blast
qed

theorem reformat_info_sequences_witness:
  "aligned_input [[(''score'', 10::int)], [(''score'', 20)]] [[True, False], [False, True]]
     [''A'', ''B''] \<and>
   (\<exists>rv. reformat_info not_a_string [[(''score'', 10::int)], [(''score'', 20)]] [[True, False], [False, True]]
           ''sub-01_run-1.bk2'' [''A'', ''B''] = Inr rv \<and>
         (\<forall>k \<in> set (map fst (hd [[(''score'', 10::int)], [(''score'', 20)]])) \<union> set [''A'', ''B''].
            \<exists>xs. rv k = Some (VSeq xs) \<and>
              length xs = length [[(''score'', 10::int)], [(''score'', 20)]]) \<and>
         (\<forall>j < length [''A'', ''B'']. \<forall>i < length [[(''score'', 10::int)], [(''score'', 20)]].
            \<exists>xs. rv ([''A'', ''B''] ! j) = Some (VSeq xs) \<and>
              xs ! i = Key ([[True, False], [False, True]] ! i ! j)))"
proof -
  have h: "aligned_input [[(''score'', 10::int)], [(''score'', 20)]] [[True, False], [False, True]]
             [''A'', ''B'']"
    by (simp add: aligned_input_def less_Suc_eq)
  from reformat_info_sequences [OF h, of not_a_string "''sub-01_run-1.bk2''"] h show ?thesis
    by blast
qed

text \<open>
  Without the alignment the property fails: a second frame that lacks the key \<open>x\<close>
  leaves a sequence of one element for two frames, and an info key that is also an
  action name gets two elements for one frame.
\<close>

theorem reformat_info_sequences_counterexample:
  "result_field (reformat_info not_a_string [[(''x'', 1::int)], []] [[], []] ''f.bk2'' []) ''x''
     = Inr (Some (VSeq [Info 1])) \<and>
   length [Info (1::int)] \<noteq> length [[(''x'', 1::int)], []] \<and>
   result_field (reformat_info not_a_string [[(''A'', 5::int)]] [[True]] ''f.bk2'' [''A'']) ''A''
     = Inr (Some (VSeq [Info 5, Key True])) \<and>
   length [Info (5::int), Key True] \<noteq> length [[(''A'', 5::int)]]"
  by (simp add: result_field_def reformat_info_def append_cell_def initial_vars_def Let_def
      appended_def)

subsection \<open>File name metadata\<close>

lemma split_once_fst_prefix:
  assumes "c \<in> set t"
  shows "prefix (fst (split_once c t) @ [c]) t"
proof -
  let ?P = "\<lambda>x. x \<noteq> c"
  have ne: "dropWhile ?P t \<noteq> []" using assms by (simp add: dropWhile_eq_Nil_conv) 
  then have "hd (dropWhile ?P t) = c" using hd_dropWhile [of ?P t] by simp
  with ne obtain r where "dropWhile ?P t = c # r" by (cases "dropWhile ?P t") auto
  then have "t = (takeWhile ?P t @ [c]) @ r"
    using takeWhile_dropWhile_id [of ?P t] by simp
  then have "prefix (takeWhile ?P t @ [c]) t" by (metis prefixI)
  then show ?thesis by (simp add: split_once_def)
qed

lemma parse_entities_absent:
  "\<forall>t \<in> set ts. \<not> prefix (k @ ''-'') t \<Longrightarrow> parse_entities ts d k = d k"
proof (induction ts arbitrary: d)
  case Nil
  then show ?case by simp
next
  case (Cons t ts)
  have np: "\<not> prefix (k @ ''-'') t" using Cons.prems by simp
  have rest: "\<forall>t \<in> set ts. \<not> prefix (k @ ''-'') t" using Cons.prems by simp
  show ?case
  proof (cases "CHR ''-'' \<in> set t")
    case True
    obtain key val where kv: "split_once CHR ''-'' t = (key, val)" by (cases "split_once CHR ''-'' t")
    from split_once_fst_prefix [OF True] kv have "prefix (key @ ''-'') t" by simp
    with np have "key \<noteq> k" by auto
    then show ?thesis using Cons.IH [OF rest] True kv by simp
  next
    case False
    then show ?thesis using Cons.IH [OF rest] by simp
  qed
qed

lemma subject_absent:
  assumes "\<forall>t \<in> set (split_on CHR ''_'' (basename q)). \<not> prefix ''sub-'' t"
  shows "initial_vars q actions ''subject'' = Some VNone"
proof -
  have "entities_dict q ''sub'' = None"
    unfolding entities_dict_def using parse_entities_absent [of _ "''sub''"] assms by simp
  then show ?thesis by (simp add: initial_vars_def dict_get_def Let_def)
qed

lemma metadata_example:
  assumes "basename p = ''sub-01_ses-02_level-W1_run-1.bk2''"
  shows "initial_vars p actions ''subject'' = Some (VStr ''01'')"
    and "initial_vars p actions ''session'' = Some (VStr ''02'')"
    and "initial_vars p actions ''level'' = Some (VStr ''W1'')"
  by (simp_all add: initial_vars_def entities_dict_def assms split_once_def dict_get_def Let_def)

lemma kept_refl: "kept rv rv"
  by (simp add: kept_def)

lemma kept_trans: "kept a b \<Longrightarrow> kept b c \<Longrightarrow> kept a c"
  by (simp add: kept_def)

lemma append_cell_kept: "append_cell rv k c = Inr rv' \<Longrightarrow> kept rv rv'"
  by (auto simp: append_cell_def kept_def split: option.splits rv_value.splits)

lemma info_loop_kept: "info_loop rv f = Inr rv' \<Longrightarrow> kept rv rv'"
proof (induction f arbitrary: rv)
  case Nil
  then show ?case by (simp add: kept_refl)
next
  case (Cons a f)
  obtain key v where a: "a = (key, v)" by (cases a)
  from Cons.prems obtain rv1 where 1: "append_cell rv key (Info v) = Inr rv1"
    and 2: "info_loop rv1 f = Inr rv'"
    by (auto simp: a split: sum.splits)
  from append_cell_kept [OF 1] Cons.IH [OF 2] show ?case by (rule kept_trans)
qed

lemma buttons_loop_kept: "buttons_loop rv keys fi bi bs = Inr rv' \<Longrightarrow> kept rv rv'"
proof (induction bs arbitrary: rv bi)
  case Nil
  then show ?case by (simp add: kept_refl)
next
  case (Cons b bs)
  from Cons.prems obtain x rv1 where 1: "append_cell rv b (Key x) = Inr rv1"
    and 2: "buttons_loop rv1 keys fi (Suc bi) bs = Inr rv'"
    by (auto split: option.splits rv_value.splits sum.splits)
  from append_cell_kept [OF 1] Cons.IH [OF 2] show ?case by (rule kept_trans)
qed

lemma extras_loop_kept: "extras_loop str_of rv keys fi bi cs = Inr rv' \<Longrightarrow> kept rv rv'"
proof (induction cs arbitrary: rv bi)
  case Nil
  then show ?case by (simp add: kept_refl)
next
  case (Cons c cs)
  from Cons.prems obtain b rv1 where 1: "buttons_loop rv keys fi bi [b] = Inr rv1"
    and 2: "extras_loop str_of rv1 keys fi (Suc bi) cs = Inr rv'"
    by (auto split: option.splits sum.splits simp del: buttons_loop.simps)
  from buttons_loop_kept [OF 1] Cons.IH [OF 2] show ?case by (rule kept_trans)
qed

lemma frames_loop_kept: "frames_loop str_of rv keys actions n fs = Inr rv' \<Longrightarrow> kept rv rv'"
proof (induction fs arbitrary: rv n)
  case Nil
  then show ?case by (simp add: kept_refl)
next
  case (Cons f fs)
  from Cons.prems obtain rv1 rv2 rv3 where 1: "info_loop rv f = Inr rv1"
    and 2: "buttons_loop rv1 keys n 0 actions = Inr rv2"
    and 3: "extras_loop str_of rv2 keys n (length actions) (appended rv2) = Inr rv3"
    and 4: "frames_loop str_of rv3 keys actions (Suc n) fs = Inr rv'"
    by (auto split: sum.splits if_splits)
  from info_loop_kept [OF 1] buttons_loop_kept [OF 2] extras_loop_kept [OF 3] Cons.IH [OF 4]
  show ?case by (blast intro: kept_trans)
qed

lemma kept_entry:
  assumes "kept rv rv'" and "rv k = Some VNone \<or> rv k = Some (VStr s)"
  shows "rv' k = rv k"
proof -
  from assms(1) have "rv k = Some VNone \<longrightarrow> rv' k = Some VNone"
    and "rv k = Some (VStr s) \<longrightarrow> rv' k = Some (VStr s)"
    by (simp_all add: kept_def)
  with assms(2) show ?thesis by auto
qed

lemma reformat_info_kept:
  assumes "reformat_info str_of info keys p actions = Inr rv"
    and "k \<notin> set (map fst (hd info))" and "k \<notin> set actions"
    and "initial_vars p actions k = Some (VNone :: 'v rv_value) \<or>
         initial_vars p actions k = Some (VStr s :: 'v rv_value)"
  shows "(rv :: 'v rep_vars) k = initial_vars p actions k"
proof -
  from assms(1) obtain first rest where info: "info = first # rest"
    by (cases info) (auto simp: reformat_info_def)
  let ?rv0 = "init_seqs actions (init_seqs (map fst first) (initial_vars p actions))
                :: 'v rep_vars"
  from assms(1) have "frames_loop str_of ?rv0 keys actions 0 info = Inr rv"
    by (simp add: reformat_info_def info del: frames_loop.simps)
  then have k: "kept ?rv0 rv" by (rule frames_loop_kept)
  have e: "?rv0 k = initial_vars p actions k"
    using assms(2,3) by (simp add: init_seqs_apply info)
  from assms(4) have "?rv0 k = Some VNone \<or> ?rv0 k = Some (VStr s)" unfolding e .
  from kept_entry [OF k this] show ?thesis unfolding e .
qed

lemma blanked_upd: "blanked (rv(k \<mapsto> v)) = (blanked rv)(k \<mapsto> blank v)"
  by (auto simp: blanked_def)

lemma append_cell_blanked:
  "append_cell (blanked rv) k c = map_sum id blanked (append_cell rv k c)"
  by (cases "rv k")
    (auto simp: append_cell_def blanked_upd blank_def blanked_def split: rv_value.splits)

lemma info_loop_blanked: "info_loop (blanked rv) f = map_sum id blanked (info_loop rv f)"
proof (induction f arbitrary: rv)
  case Nil
  then show ?case by simp
next
  case (Cons a f)
  obtain key v where a: "a = (key, v)" by (cases a)
  show ?case
    by (cases "append_cell rv key (Info v)") (simp_all add: a append_cell_blanked Cons.IH)
qed

lemma buttons_loop_blanked:
  "buttons_loop (blanked rv) keys fi bi bs = map_sum id blanked (buttons_loop rv keys fi bi bs)"
proof (induction bs arbitrary: rv bi)
  case Nil
  then show ?case by simp
next
  case (Cons b bs)
  have look: "blanked rv b = map_option blank (rv b)" by (simp add: blanked_def)
  show ?case
  proof (cases "rv b")
    case None
    then show ?thesis by (simp add: look)
  next
    case (Some v)
    show ?thesis
    proof (cases "nth_opt keys fi")
      case None
      with Some show ?thesis by (cases v) (simp_all add: look blank_def)
    next
      case row: (Some row)
      show ?thesis
      proof (cases "nth_opt row bi")
        case None
        with Some row show ?thesis by (cases v) (simp_all add: look blank_def)
      next
        case x: (Some x)
        show ?thesis
          using Some row x
          by (cases v; cases "append_cell rv b (Key x)")
            (simp_all add: look blank_def append_cell_blanked Cons.IH)
      qed
    qed
  qed
qed

lemma appended_blanked: "appended (blanked rv) = appended rv"
  by (simp add: appended_def blanked_def blank_def split: option.splits rv_value.splits)

lemma extras_loop_blanked:
  "extras_loop str_of (blanked rv) keys fi bi cs
     = map_sum id blanked (extras_loop str_of rv keys fi bi cs)"
proof (induction cs arbitrary: rv bi)
  case Nil
  then show ?case by simp
next
  case (Cons c cs)
  show ?case
  proof (cases "case c of Info v \<Rightarrow> str_of v | Key b \<Rightarrow> None")
    case None
    then show ?thesis by simp
  next
    case (Some b)
    then show ?thesis
      by (cases "buttons_loop rv keys fi bi [b]")
        (simp_all add: buttons_loop_blanked Cons.IH del: buttons_loop.simps)
  qed
qed

lemma frames_loop_blanked:
  "frames_loop str_of (blanked rv) keys actions n fs
     = map_sum id blanked (frames_loop str_of rv keys actions n fs)"
proof (induction fs arbitrary: rv n)
  case Nil
  then show ?case by simp
next
  case (Cons f fs)
  show ?case
  proof (cases "info_loop rv f")
    case (Inl e)
    then show ?thesis by (simp add: info_loop_blanked)
  next
    case rv1: (Inr rv1)
    show ?thesis
    proof (cases "buttons_loop rv1 keys n 0 actions")
      case (Inl e)
      with rv1 show ?thesis by (simp add: info_loop_blanked buttons_loop_blanked)
    next
      case rv2: (Inr rv2)
      show ?thesis
      proof (cases "extras_loop str_of rv2 keys n (length actions) (appended rv2)")
        case (Inl e)
        with rv1 rv2 show ?thesis
          by (simp add: info_loop_blanked buttons_loop_blanked extras_loop_blanked
              appended_blanked)
      next
        case (Inr rv3)
        with rv1 rv2 show ?thesis
          by (simp add: info_loop_blanked buttons_loop_blanked extras_loop_blanked
              appended_blanked Cons.IH)
      qed
    qed
  qed
qed

lemma blanked_seq: "(blanked rv)(k \<mapsto> VSeq xs) = blanked (rv(k \<mapsto> VSeq xs))"
  by (auto simp: blanked_def blank_def)

lemma init_seqs_blanked: "init_seqs ks (blanked rv) = blanked (init_seqs ks rv)"
  by (induction ks arbitrary: rv) (simp_all add: blanked_seq)

lemma initial_vars_blanked:
  "blanked (initial_vars p actions :: 'v rep_vars) = blanked (initial_vars q actions)"
  by (rule ext)
    (simp add: blanked_def initial_vars_def Let_def blank_def dict_get_def split: option.splits)

lemma reformat_info_blanked:
  "map_sum id blanked (reformat_info str_of info keys p actions)
     = map_sum id blanked (reformat_info str_of info keys q actions)"
proof (cases info)
  case Nil
  then show ?thesis by (simp add: reformat_info_def)
next
  case (Cons first rest)
  have h: "map_sum id blanked (reformat_info str_of info keys x actions) =
      frames_loop str_of
        (init_seqs actions (init_seqs (map fst first) (blanked (initial_vars x actions))))
        keys actions 0 info" for x
    by (simp add: reformat_info_def Cons init_seqs_blanked
        frames_loop_blanked [symmetric] del: frames_loop.simps)
  show ?thesis by (simp only: h initial_vars_blanked [of p actions q])
qed

lemma reformat_info_same_error:
  "reformat_info str_of info keys p actions = Inl e \<longleftrightarrow>
   reformat_info str_of info keys q actions = Inl e"
  using reformat_info_blanked [of str_of info keys p actions q]
  by (cases "reformat_info str_of info keys p actions";
      cases "reformat_info str_of info keys q actions") simp_all

text \<open>
  Claim C6, as amended.  When none of \<open>subject\<close>, \<open>session\<close> and \<open>level\<close> is an info key
  of the first frame or an action name: every record that \<open>reformat_info\<close> returns for
  a path with the base name \<open>sub-01_ses-02_level-W1_run-1.bk2\<close> has subject \<open>01\<close>,
  session \<open>02\<close> and level \<open>W1\<close>, and every record it returns for a path whose base name
  has no token starting with \<open>sub-\<close> has the subject \<open>None\<close>.  The file name never
  decides whether the call raises: it raises an error for one path exactly when it
  raises that error for any other.  On aligned input it returns.
\<close>

theorem filename_metadata:
  assumes "\<forall>k \<in> {''subject'', ''session'', ''level''}.
             k \<notin> set (map fst (hd info)) \<and> k \<notin> set actions"
    and "basename p = ''sub-01_ses-02_level-W1_run-1.bk2''"
    and "\<forall>t \<in> set (split_on CHR ''_'' (basename q)). \<not> prefix ''sub-'' t"
  shows "(\<forall>rv. reformat_info str_of info keys p actions = Inr rv \<longrightarrow>
            rv ''subject'' = Some (VStr ''01'') \<and> rv ''session'' = Some (VStr ''02'') \<and>
            rv ''level'' = Some (VStr ''W1'')) \<and>
         (\<forall>rv. reformat_info str_of info keys q actions = Inr rv \<longrightarrow>
            rv ''subject'' = Some VNone) \<and>
         (\<forall>x e. reformat_info str_of info keys q actions = Inl e \<longleftrightarrow>
                 reformat_info str_of info keys x actions = Inl e) \<and>
         (aligned_input info keys actions \<longrightarrow>
            (\<exists>rv. reformat_info str_of info keys p actions = Inr rv) \<and>
            (\<exists>rv. reformat_info str_of info keys q actions = Inr rv))"
proof -
  from assms(1) have su: "''subject'' \<notin> set (map fst (hd info))" "''subject'' \<notin> set actions"
    and se: "''session'' \<notin> set (map fst (hd info))" "''session'' \<notin> set actions"
    and le: "''level'' \<notin> set (map fst (hd info))" "''level'' \<notin> set actions"
    by simp_all
  have 1: "rv ''subject'' = Some (VStr ''01'') \<and> rv ''session'' = Some (VStr ''02'') \<and>
            rv ''level'' = Some (VStr ''W1'')"
    if r: "reformat_info str_of info keys p actions = Inr rv" for rv
  proof -
    note m = metadata_example [OF assms(2), of actions]
    have "rv ''subject'' = initial_vars p actions ''subject''"
      by (rule reformat_info_kept [OF r su, of "''01''"]) (simp only: m simp_thms)
    moreover have "rv ''session'' = initial_vars p actions ''session''"
      by (rule reformat_info_kept [OF r se, of "''02''"]) (simp only: m simp_thms)
    moreover have "rv ''level'' = initial_vars p actions ''level''"
      by (rule reformat_info_kept [OF r le, of "''W1''"]) (simp only: m simp_thms)
    ultimately show ?thesis by (simp only: m simp_thms)
  qed
  have 2: "rv ''subject'' = Some VNone"
    if r: "reformat_info str_of info keys q actions = Inr rv" for rv
  proof -
    note a = subject_absent [OF assms(3), of actions]
    have "rv ''subject'' = initial_vars q actions ''subject''"
      by (rule reformat_info_kept [OF r su, of "[]"]) (simp only: a simp_thms)
    then show ?thesis by (simp only: a)
  qed
  have 3: "reformat_info str_of info keys q actions = Inl e \<longleftrightarrow>
           reformat_info str_of info keys x actions = Inl e" for x e
    by (rule reformat_info_same_error)
  have 4: "(\<exists>rv. reformat_info str_of info keys p actions = Inr rv) \<and>
           (\<exists>rv. reformat_info str_of info keys q actions = Inr rv)"
    if a: "aligned_input info keys actions"
    using reformat_info_aligned [OF a, of str_of p] reformat_info_aligned [OF a, of str_of q]
    by blast
  show ?thesis
  proof (intro conjI allI impI)
    fix rv assume "reformat_info str_of info keys p actions = Inr rv"
    from 1 [OF this] show "rv ''subject'' = Some (VStr ''01'')"
      and "rv ''session'' = Some (VStr ''02'')" and "rv ''level'' = Some (VStr ''W1'')"
      by simp_all
  next
    fix rv assume "reformat_info str_of info keys q actions = Inr rv"
    from 2 [OF this] show "rv ''subject'' = Some VNone" .
  next
    fix x e
    show "reformat_info str_of info keys q actions = Inl e \<longleftrightarrow>
          reformat_info str_of info keys x actions = Inl e" by (rule 3)
  next
    assume a: "aligned_input info keys actions"
    from 4 [OF a] show "\<exists>rv. reformat_info str_of info keys p actions = Inr rv"
      and "\<exists>rv. reformat_info str_of info keys q actions = Inr rv" by simp_all
  qed
qed

theorem filename_metadata_witness:
  "aligned_input [[(''score'', 10::int)]] [[True]] [''A''] \<and>
   basename ''/data/sub-01_ses-02_level-W1_run-1.bk2'' = ''sub-01_ses-02_level-W1_run-1.bk2'' \<and>
   split_on CHR ''_'' (basename ''/data/ses-02_level-W1_run-1.bk2'')
     = [''ses-02'', ''level-W1'', ''run-1.bk2''] \<and>
   result_field (reformat_info not_a_string [[(''score'', 10::int)]] [[True]]
       ''/data/sub-01_ses-02_level-W1_run-1.bk2'' [''A'']) ''subject'' = Inr (Some (VStr ''01'')) \<and>
   result_field (reformat_info not_a_string [[(''score'', 10::int)]] [[True]]
       ''/data/sub-01_ses-02_level-W1_run-1.bk2'' [''A'']) ''session'' = Inr (Some (VStr ''02'')) \<and>
   result_field (reformat_info not_a_string [[(''score'', 10::int)]] [[True]]
       ''/data/sub-01_ses-02_level-W1_run-1.bk2'' [''A'']) ''level'' = Inr (Some (VStr ''W1'')) \<and>
   result_field (reformat_info not_a_string [[(''score'', 10::int)]] [[True]]
       ''/data/ses-02_level-W1_run-1.bk2'' [''A'']) ''subject'' = Inr (Some VNone)"
proof -
  have h1: "aligned_input [[(''score'', 10::int)]] [[True]] [''A'']"
    by (simp add: aligned_input_def)
  have h2: "\<forall>k \<in> {''subject'', ''session'', ''level''}.
      k \<notin> set (map fst (hd [[(''score'', 10::int)]])) \<and> k \<notin> set [''A'']"
    by simp
  have h3: "basename ''/data/sub-01_ses-02_level-W1_run-1.bk2'' = ''sub-01_ses-02_level-W1_run-1.bk2''"
    by (simp add: basename_def)
  have h4: "\<forall>t \<in> set (split_on CHR ''_'' (basename ''/data/ses-02_level-W1_run-1.bk2'')).
       \<not> prefix ''sub-'' t"
    by (simp add: basename_def)
  have h5: "split_on CHR ''_'' (basename ''/data/ses-02_level-W1_run-1.bk2'')
     = [''ses-02'', ''level-W1'', ''run-1.bk2'']"
    by (simp add: basename_def)
  note t = filename_metadata [OF h2 h3 h4, of not_a_string "[[True]]"]
  from t h1 obtain rv rv' where
    r: "reformat_info not_a_string [[(''score'', 10::int)]] [[True]]
       ''/data/sub-01_ses-02_level-W1_run-1.bk2'' [''A''] = Inr rv"
    and r': "reformat_info not_a_string [[(''score'', 10::int)]] [[True]]
       ''/data/ses-02_level-W1_run-1.bk2'' [''A''] = Inr rv'"
    by blast
  from t r have "rv ''subject'' = Some (VStr ''01'') \<and> rv ''session'' = Some (VStr ''02'') \<and>
            rv ''level'' = Some (VStr ''W1'')" by blast
  moreover from t r' have "rv' ''subject'' = Some VNone" by blast
  ultimately show ?thesis using h1 h3 h5 by (simp add: result_field_def r r')
qed

text \<open>
  As stated the claim fails: an info key \<open>level\<close> puts its sequence where the level
  parsed from the file name was, and with no frame at all the call raises on
  \<open>info[0]\<close>, whatever the file name.
\<close>

theorem filename_metadata_counterexample:
  "result_field (reformat_info not_a_string [[(''level'', 4::int)]] [[]]
       ''sub-01_ses-02_level-W1_run-1.bk2'' []) ''level'' = Inr (Some (VSeq [Info 4])) \<and>
   result_field (reformat_info not_a_string ([] :: (string \<times> int) list list) []
       ''ses-02_level-W1_run-1.bk2'' []) ''subject'' = Inl IndexError"
  by (simp add: result_field_def reformat_info_def append_cell_def initial_vars_def Let_def
      appended_def)

section \<open>Properties of replay\_bk2 and get\_variables\_from\_replay\<close>

lemma length_key_rows:
  "length (concat (map (\<lambda>p. map (f p) [0..<k]) [0..<n])) = n * k"
  by (induction n) auto

lemma length_collect_keys: "length (collect_keys m e) = players m * num_buttons e"
  by (simp add: collect_keys_def length_key_rows)

lemma loop_head_end:
  "mv_rest m = [] \<Longrightarrow> loop_head m e a = (None, Returned (movie_close m) (emu_close e))"
  by (simp add: loop_head_def movie_step_def)

lemma loop_head_yield:
  assumes "mv_rest m = s # ss"
  shows "\<exists>r e'. loop_head m e a = (Some r, Suspended (m\<lparr>mv_rest := ss, mv_cur := s\<rparr>) e' a) \<and>
           length (r_keys r) = players m * num_buttons e \<and> r_actions r = a \<and>
           num_buttons e' = num_buttons e"
proof -
  let ?m' = "m\<lparr>mv_rest := ss, mv_cur := s\<rparr>"
  obtain out s' where d: "em_dynamics e (em_state e) (collect_keys ?m' e) = (out, s')"
    by (cases "em_dynamics e (em_state e) (collect_keys ?m' e)")
  have p: "players ?m' = players m" by (simp add: players_def)
  show ?thesis
    using length_collect_keys [of ?m' e] p
    by (simp add: loop_head_def movie_step_def assms Let_def emu_step_def d)
qed

lemma drain_finished:
  "gen_next A g = (None, g') \<Longrightarrow> drain A g = ([], g')"
  by (subst drain.simps) simp

lemma drain_yield:
  "gen_next A g = (Some r, g') \<Longrightarrow> drain A g = (r # fst (drain A g'), snd (drain A g'))"
  by (subst drain.simps) (simp add: case_prod_beta)

lemma drain_suspended:
  "mv_rest m = steps \<Longrightarrow>
     length (fst (drain A (Suspended m e a))) = length steps \<and>
     (\<forall>r \<in> set (fst (drain A (Suspended m e a))).
        length (r_keys r) = players m * num_buttons e \<and> r_actions r = a) \<and>
     released (snd (drain A (Suspended m e a)))"
proof (induction steps arbitrary: m e)
  case Nil
  have "gen_next A (Suspended m e a) = (None, Returned (movie_close m) (emu_close e))"
    using loop_head_end [OF Nil] by (simp add: gen_next_def)
  from drain_finished [OF this] show ?case
    by (simp add: released_def movie_close_def emu_close_def)
next
  case (Cons s ss)
  let ?m' = "m\<lparr>mv_rest := ss, mv_cur := s\<rparr>"
  from loop_head_yield [OF Cons.prems, of e a] obtain r e' where
    l: "loop_head m e a = (Some r, Suspended ?m' e' a)"
    and k: "length (r_keys r) = players m * num_buttons e" "r_actions r = a"
    and n: "num_buttons e' = num_buttons e" by blast
  have "gen_next A (Suspended m e a) = (Some r, Suspended ?m' e' a)"
    using l by (simp add: gen_next_def)
  note d = drain_yield [OF this]
  have "mv_rest ?m' = ss" by simp
  note ih = Cons.IH [OF this, of e']
  have p: "players ?m' = players m" by (simp add: players_def)
  show ?case using d ih k n p by simp
qed

lemma start_loop_head:
  "start A = loop_head (first_movie A) (first_emulator A) (buttons (retro_make A (chosen_game A)))"
  by (simp add: start_def Let_def first_movie_def first_emulator_def Movie_def)

lemma drain_unstarted:
  "drain A Unstarted =
     drain A (Suspended (first_movie A) (first_emulator A) (buttons (retro_make A (chosen_game A))))"
  by (subst drain.simps, subst (2) drain.simps) (simp add: gen_next_def start_loop_head)

lemma first_movie_rest:
  "mv_rest (first_movie A) =
     (if skip_first_step A then tl (b_steps (bk2_file A)) else b_steps (bk2_file A))"
  by (simp add: first_movie_def Movie_def movie_step_def split: list.splits)

lemma first_movie_players: "players (first_movie A) = b_players (bk2_file A)"
  by (simp add: first_movie_def Movie_def movie_step_def players_def split: list.splits)

lemma first_emulator_buttons: "num_buttons (first_emulator A) = num_buttons (retro_make A (chosen_game A))"
  by (simp add: first_emulator_def emu_reset_def)

lemma chosen_game_skip [simp]: "chosen_game (A\<lparr>skip_first_step := b\<rparr>) = chosen_game A"
  by (simp add: chosen_game_def split: option.splits)

lemma drain_records:
  "length (fst (drain A Unstarted)) =
     (if skip_first_step A then length (b_steps (bk2_file A)) - 1 else length (b_steps (bk2_file A)))"
  "\<forall>r \<in> set (fst (drain A Unstarted)).
     length (r_keys r) = b_players (bk2_file A) * num_buttons (retro_make A (chosen_game A))"
  "released (snd (drain A Unstarted))"
  using drain_suspended [OF refl, of A "first_movie A" "first_emulator A"
      "buttons (retro_make A (chosen_game A))"]
  by (simp_all add: drain_unstarted first_movie_rest first_movie_players first_emulator_buttons)

lemma drain_empty_movie:
  "b_steps (bk2_file A) = [] \<Longrightarrow> fst (drain A Unstarted) = []"
  using drain_records(1) [of A] by (simp split: if_splits)

text \<open>
  Claim C1, as amended.  Replaying a movie of \<open>N\<close> logged steps without
  \<open>skip_first_step\<close> yields \<open>N\<close> records, each with a key vector of players times
  buttons entries.  With \<open>skip_first_step\<close> the same movie yields one record fewer when
  it has a step, and no record when it has none.
\<close>

theorem replay_bk2_record_count:
  "length (fst (drain (A\<lparr>skip_first_step := False\<rparr>) Unstarted)) = length (b_steps (bk2_file A)) \<and>
   (\<forall>r \<in> set (fst (drain (A\<lparr>skip_first_step := False\<rparr>) Unstarted)).
      length (r_keys r) = b_players (bk2_file A) * num_buttons (retro_make A (chosen_game A))) \<and>
   (b_steps (bk2_file A) \<noteq> [] \<longrightarrow>
      length (fst (drain (A\<lparr>skip_first_step := True\<rparr>) Unstarted)) + 1
        = length (fst (drain (A\<lparr>skip_first_step := False\<rparr>) Unstarted))) \<and>
   (b_steps (bk2_file A) = [] \<longrightarrow> fst (drain (A\<lparr>skip_first_step := True\<rparr>) Unstarted) = [])"
proof -
  have a: "length (fst (drain (A\<lparr>skip_first_step := False\<rparr>) Unstarted)) = length (b_steps (bk2_file A))"
    using drain_records(1) [of "A\<lparr>skip_first_step := False\<rparr>"] by simp
  have b: "\<forall>r \<in> set (fst (drain (A\<lparr>skip_first_step := False\<rparr>) Unstarted)).
      length (r_keys r) = b_players (bk2_file A) * num_buttons (retro_make A (chosen_game A))"
    using drain_records(2) [of "A\<lparr>skip_first_step := False\<rparr>"] by simp
  have c: "length (fst (drain (A\<lparr>skip_first_step := True\<rparr>) Unstarted)) = length (b_steps (bk2_file A)) - 1"
    using drain_records(1) [of "A\<lparr>skip_first_step := True\<rparr>"] by simp
  have d: "b_steps (bk2_file A) \<noteq> [] \<longrightarrow>
      length (fst (drain (A\<lparr>skip_first_step := True\<rparr>) Unstarted)) + 1
        = length (fst (drain (A\<lparr>skip_first_step := False\<rparr>) Unstarted))"
    using a c by (cases "b_steps (bk2_file A)") simp_all
  have e: "b_steps (bk2_file A) = [] \<longrightarrow> fst (drain (A\<lparr>skip_first_step := True\<rparr>) Unstarted) = []"
    using c by auto
  from a b d e show ?thesis by blast
qed

theorem replay_bk2_record_count_witness:
  "b_steps (bk2_file (demo_args False [\<lambda>i p. i = 0, \<lambda>i p. i = 1])) \<noteq> [] \<and>
   length (fst (drain (demo_args False [\<lambda>i p. i = 0, \<lambda>i p. i = 1]) Unstarted)) = 2 \<and>
   length (fst (drain (demo_args True [\<lambda>i p. i = 0, \<lambda>i p. i = 1]) Unstarted)) = 1 \<and>
   b_steps (bk2_file (demo_args False [])) = [] \<and>
   fst (drain (demo_args True []) Unstarted) = []"
  using replay_bk2_record_count [of "demo_args False [\<lambda>i p. i = 0, \<lambda>i p. i = 1]"]
    replay_bk2_record_count [of "demo_args False []"]
  by (simp add: demo_args_def)

text \<open>
  For the movie without steps both calls yield no record, so the count with
  \<open>skip_first_step\<close> is not \<open>N - 1\<close>.
\<close>

theorem replay_bk2_record_count_counterexample:
  "length (b_steps (bk2_file (demo_args True []))) = 0 \<and>
   length (fst (drain (demo_args False []) Unstarted)) = 0 \<and>
   length (fst (drain (demo_args True []) Unstarted)) = 0 \<and>
   int (length (fst (drain (demo_args True []) Unstarted)))
     \<noteq> int (length (b_steps (bk2_file (demo_args True [])))) - 1"
  by (simp add: drain_empty_movie demo_args_def)

lemma first_movie_open: "\<not> mv_closed (first_movie A)"
  by (simp add: first_movie_def Movie_def movie_step_def split: list.splits)

lemma early_close_keeps_open:
  assumes "gen_next A Unstarted = (Some r, g)"
  shows "\<not> released (gen_close g)"
proof -
  let ?m = "first_movie A" and ?e = "first_emulator A"
    and ?a = "buttons (retro_make A (chosen_game A))"
  from assms have l: "loop_head ?m ?e ?a = (Some r, g)"
    by (simp add: gen_next_def start_loop_head)
  show ?thesis
  proof (cases "mv_rest ?m")
    case Nil
    from loop_head_end [OF Nil, of ?e ?a] l show ?thesis by simp
  next
    case (Cons s ss)
    from loop_head_yield [OF Cons, of ?e ?a] l obtain e' where
      "g = Suspended (?m\<lparr>mv_rest := ss, mv_cur := s\<rparr>) e' ?a" by auto
    then show ?thesis
      using first_movie_open [of A] by (simp add: gen_close_def released_def)
  qed
qed

text \<open>
  Claim C3.  A consumer that takes one record of a two-step movie and then closes the
  generator leaves the movie and the emulator open; iterating the same generator to
  its end releases both.
\<close>

theorem early_close_leaks:
  "fst (gen_next (demo_args False [\<lambda>i p. i = 0, \<lambda>i p. i = 1]) Unstarted) \<noteq> None \<and>
   \<not> released (gen_close (snd (gen_next (demo_args False [\<lambda>i p. i = 0, \<lambda>i p. i = 1]) Unstarted))) \<and>
   released (snd (drain (demo_args False [\<lambda>i p. i = 0, \<lambda>i p. i = 1]) Unstarted))"
proof -
  let ?A = "demo_args False [\<lambda>i p. i = 0, \<lambda>i p. i = 1]"
  have "fst (gen_next ?A Unstarted) \<noteq> None \<and> \<not> released (gen_close (snd (gen_next ?A Unstarted)))"
    by (simp add: gen_next_def start_def loop_head_def demo_args_def Let_def
      Movie_def movie_step_def emu_step_def emu_reset_def demo_emulator_def demo_dynamics_def
      gen_close_def released_def chosen_game_def)
  moreover have "released (snd (drain ?A Unstarted))"
    by (rule drain_records(3))
  ultimately show ?thesis by blast
qed

text \<open>
  Claim C9.  When the replay yields no record, \<open>get_variables_from_replay\<close> raises:
  \<open>actions\<close> is not bound when line 79 evaluates it, and \<open>reformat_info\<close> on the
  collected, empty info list would raise on \<open>info[0]\<close>.
\<close>

theorem no_records_raises:
  assumes "fst (drain A Unstarted) = []"
  shows "get_variables_from_replay A = Inl UnboundLocalError \<and>
         reformat_info str_of (replay_info (no_records :: ('s, 'f, 'r, 'v) collected))
           (replay_keys (no_records :: ('s, 'f, 'r, 'v) collected)) (bk2_path A) acts
           = Inl IndexError"
  using assms by (simp add: get_variables_from_replay_def no_records_def reformat_info_def)

theorem no_records_raises_witness:
  "fst (drain (demo_args True [\<lambda>i p. i = 0]) Unstarted) = [] \<and>
   get_variables_from_replay (demo_args True [\<lambda>i p. i = 0]) = Inl UnboundLocalError"
proof -
  have h: "fst (drain (demo_args True [\<lambda>i p. i = 0]) Unstarted) = []"
    using drain_records(1) [of "demo_args True [\<lambda>i p. i = 0]"] by (simp add: demo_args_def)
  from no_records_raises [OF h, of not_a_string "[]"] h show ?thesis by blast
qed

section \<open>Properties of the exporters\<close>

lemma map_of_filter_fst:
  "map_of (filter (\<lambda>e. fst e \<noteq> p) xs) q = (if q = p then None else map_of xs q)"
  by (induction xs) auto

lemma lookup_write_file [simp]:
  "lookup_file (write_file p c w) q = (if q = p then Some c else lookup_file w q)"
  by (simp add: lookup_file_def write_file_def map_of_filter_fst)

lemma lookup_unlink [simp]:
  "lookup_file (unlink_missing_ok p w) q = (if q = p then None else lookup_file w q)"
  by (simp add: lookup_file_def unlink_missing_ok_def map_of_filter_fst)

lemma lookup_trace_update [simp]: "lookup_file (w\<lparr>trace := t\<rparr>) q = lookup_file w q"
  by (simp add: lookup_file_def)

lemma lookup_log_update [simp]: "lookup_file (w\<lparr>log := t\<rparr>) q = lookup_file w q"
  by (simp add: lookup_file_def)

lemma lookup_dirs_update [simp]: "lookup_file (w\<lparr>dirs := t\<rparr>) q = lookup_file w q"
  by (simp add: lookup_file_def)

lemma lookup_rmdir: "rmdir d w = Inr w' \<Longrightarrow> lookup_file w' q = lookup_file w q"
  by (auto simp: rmdir_def split: if_splits)

lemma lookup_cleanup:
  "lookup_file (cleanup ta tv d w) q = (if q = ta \<or> q = tv then None else lookup_file w q)"
  by (auto simp: cleanup_def Let_def lookup_rmdir split: sum.splits)

lemma rmdir_empty:
  "d \<in> set (dirs w) \<Longrightarrow> empty_dir d w \<Longrightarrow> rmdir d w = Inr (w\<lparr>dirs := removeAll d (dirs w)\<rparr>)"
  by (simp add: rmdir_def empty_dir_def list_ex_iff)

lemma inside_join: "inside d (path_join d n)"
  by (simp add: inside_def path_join_def)

lemma empty_dir_unlink:
  "(\<forall>e \<in> set (files w). inside d (fst e) \<longrightarrow> fst e = p \<or> fst e = q) \<Longrightarrow>
     empty_dir d (unlink_missing_ok p (unlink_missing_ok q w))"
  by (auto simp: empty_dir_def unlink_missing_ok_def)

lemma write_video_written:
  "writer_ffmpeg E \<Longrightarrow> fr \<noteq> [] \<Longrightarrow>
     write_video E fr fps tv w = (None, write_file tv (Video fr fps) w)"
  by (simp add: write_video_def)

lemma write_video_cases:
  "write_video E fr fps tv w = (Some AssertionError, w) \<or>
   write_video E fr fps tv w = (Some AttributeError, w) \<or>
   write_video E fr fps tv w = (None, write_file tv (Video fr fps) w)"
  by (simp add: write_video_def)

lemma mux_audio_staged:
  "mux_audio E (tmp_name E) (temp_video_of E) fn a r
       (write_file (temp_video_of E) (Video fr fps) (w\<lparr>dirs := tmp_name E # dirs w\<rparr>)) =
     (reraise (fst (run_ffmpeg E (temp_video_of E) (temp_audio_of E) fn (staged E fr fps a r w))),
      cleanup (temp_audio_of E) (temp_video_of E) (tmp_name E)
        (snd (run_ffmpeg E (temp_video_of E) (temp_audio_of E) fn (staged E fr fps a r w))))"
  by (simp add: mux_audio_def Let_def staged_def temp_audio_of_def reraise_def
      split: prod.splits option.splits py_error.splits)

lemma make_mp4_audio:
  assumes "writer_ffmpeg E" and "fr \<noteq> []"
  shows "make_mp4 E fr fn (Some a) (Some r) fps w =
     (reraise (fst (run_ffmpeg E (temp_video_of E) (temp_audio_of E) fn (staged E fr fps a r w))),
      cleanup (temp_audio_of E) (temp_video_of E) (tmp_name E)
        (snd (run_ffmpeg E (temp_video_of E) (temp_audio_of E) fn (staged E fr fps a r w))))"
  using mux_audio_staged [of E fn a r fr fps w]
  by (simp add: make_mp4_def mkdtemp_def Let_def write_video_written [OF assms]
      temp_video_of_def)

lemma fst_run_ffmpeg:
  "fst (run_ffmpeg E v a out w) =
     (case ffmpeg E of
        Missing \<Rightarrow> Some FileNotFoundError
      | Exits rc \<Rightarrow> (if rc \<noteq> 0 then Some (CalledProcessError rc) else None))"
  by (simp add: run_ffmpeg_def Let_def split: mux_tool.splits option.splits)

lemma make_mp4_audio_outcome:
  assumes "writer_ffmpeg E" and "fr \<noteq> []"
  shows "fst (make_mp4 E fr fn (Some a) (Some r) fps w) =
     (case ffmpeg E of
        Missing \<Rightarrow> Some (RuntimeError ffmpeg_required)
      | Exits rc \<Rightarrow> (if rc \<noteq> 0 then Some (CalledProcessError rc) else None))"
  by (simp add: make_mp4_audio [OF assms] fst_run_ffmpeg reraise_def split: mux_tool.splits)

lemma make_mp4_one_sided:
  assumes "audio = None \<or> rate = None"
  shows "make_mp4 E fr fn audio rate fps w = make_mp4 E fr fn None None fps w"
  using assms by (auto simp: make_mp4_def mkdtemp_def Let_def split: option.splits prod.splits)

lemma make_mp4_none:
  "make_mp4 E fr fn None None fps w =
     (case write_video E fr fps (temp_video_of E) (w\<lparr>dirs := tmp_name E # dirs w\<rparr>) of
        (Some e, u) \<Rightarrow> (Some e, u)
      | (None, u) \<Rightarrow>
          (case path_replace E (temp_video_of E) fn u of
             Inl e \<Rightarrow> (Some e, u)
           | Inr u' \<Rightarrow>
               (case rmdir (tmp_name E) u' of
                  Inl e \<Rightarrow> (Some e, u')
                | Inr u'' \<Rightarrow> (None, u''))))"
proof -
  obtain x u where wv:
    "write_video E fr fps (temp_video_of E) (w\<lparr>dirs := tmp_name E # dirs w\<rparr>) = (x, u)"
    by (cases "write_video E fr fps (temp_video_of E) (w\<lparr>dirs := tmp_name E # dirs w\<rparr>)")
  then have wv': "write_video E fr fps (path_join (tmp_name E) ''video_only.mp4'')
      (w\<lparr>dirs := tmp_name E # dirs w\<rparr>) = (x, u)"
    by (simp add: temp_video_of_def)
  show ?thesis
    by (cases x) (simp_all add: make_mp4_def mkdtemp_def Let_def wv wv' temp_video_of_def)
qed

lemma path_replace_trace:
  "path_replace E src dst u = Inr u' \<Longrightarrow> trace u' = trace u \<and> log u' = log u"
  by (auto simp: path_replace_def write_file_def unlink_missing_ok_def
      split: option.splits if_splits)

lemma rmdir_trace: "rmdir d u = Inr u' \<Longrightarrow> trace u' = trace u \<and> log u' = log u"
  by (auto simp: rmdir_def split: if_splits)

lemma write_video_trace:
  "write_video E fr fps tv u = (x, u') \<Longrightarrow> trace u' = trace u \<and> log u' = log u"
  by (auto simp: write_video_def write_file_def split: if_splits)

lemma path_replace_error: "path_replace E x y u = Inl e \<Longrightarrow> e = FileNotFoundError \<or> e = OSError"
  by (auto simp: path_replace_def split: option.splits if_splits)

lemma rmdir_error: "rmdir d u = Inl e \<Longrightarrow> e = FileNotFoundError \<or> e = OSError"
  by (auto simp: rmdir_def split: if_splits)

lemma make_mp4_silent_quiet:
  assumes "audio = None \<or> rate = None"
  shows "trace (snd (make_mp4 E fr fn audio rate fps w)) = trace w"
    and "log (snd (make_mp4 E fr fn audio rate fps w)) = log w"
    and "fst (make_mp4 E fr fn audio rate fps w) \<in>
           {None, Some FileNotFoundError, Some OSError, Some AssertionError, Some AttributeError}"
proof -
  let ?u0 = "w\<lparr>dirs := tmp_name E # dirs w\<rparr>"
  obtain x u where wv: "write_video E fr fps (temp_video_of E) ?u0 = (x, u)"
    by (cases "write_video E fr fps (temp_video_of E) ?u0")
  from write_video_trace [OF wv] have tu: "trace u = trace w" "log u = log w" by simp_all
  have xe: "x = None \<or> x = Some AssertionError \<or> x = Some AttributeError"
    using write_video_cases [of E fr fps "temp_video_of E" ?u0] wv by auto
  have m: "make_mp4 E fr fn audio rate fps w = make_mp4 E fr fn None None fps w"
    by (rule make_mp4_one_sided [OF assms])
  have "trace (snd (make_mp4 E fr fn None None fps w)) = trace w \<and>
        log (snd (make_mp4 E fr fn None None fps w)) = log w \<and>
        fst (make_mp4 E fr fn None None fps w) \<in>
           {None, Some FileNotFoundError, Some OSError, Some AssertionError, Some AttributeError}"
  proof (cases x)
    case (Some e)
    with xe tu show ?thesis by (auto simp: make_mp4_none wv)
  next
    case None
    show ?thesis
    proof (cases "path_replace E (temp_video_of E) fn u")
      case (Inl e)
      with None tu path_replace_error [OF Inl] show ?thesis by (auto simp: make_mp4_none wv)
    next
      case (Inr u')
      note r = path_replace_trace [OF Inr]
      show ?thesis
      proof (cases "rmdir (tmp_name E) u'")
        case (Inl e)
        with None Inr tu r rmdir_error [OF Inl] show ?thesis by (auto simp: make_mp4_none wv)
      next
        case (Inr u'')
        with None \<open>path_replace E (temp_video_of E) fn u = Inr u'\<close> tu r rmdir_trace [OF Inr]
        show ?thesis by (auto simp: make_mp4_none wv)
      qed
    qed
  qed
  with m show "trace (snd (make_mp4 E fr fn audio rate fps w)) = trace w"
    and "log (snd (make_mp4 E fr fn audio rate fps w)) = log w"
    and "fst (make_mp4 E fr fn audio rate fps w) \<in>
           {None, Some FileNotFoundError, Some OSError, Some AssertionError, Some AttributeError}"
    by simp_all
qed

lemma files_write_file:
  "e \<in> set (files (write_file p c w)) \<Longrightarrow> fst e = p \<or> e \<in> set (files w)"
  by (auto simp: write_file_def)

lemma files_staged:
  "e \<in> set (files (staged E fr fps a r w)) \<Longrightarrow>
     fst e = temp_audio_of E \<or> fst e = temp_video_of E \<or> e \<in> set (files w)"
  by (auto simp: staged_def write_wav_def Let_def dest!: files_write_file split: if_splits)

lemma dirs_staged: "dirs (staged E fr fps a r w) = tmp_name E # dirs w"
  by (simp add: staged_def write_wav_def write_file_def Let_def)

lemma lookup_staged:
  "lookup_file (staged E fr fps a r w) q =
     (if q = temp_audio_of E
      then Some (Wav (if dtype a \<noteq> Int16
                      then \<lparr>dtype = Int16, samples = cast_int16 E (samples a)\<rparr> else a) r)
      else if q = temp_video_of E then Some (Video fr fps)
      else lookup_file w q)"
  by (simp add: staged_def write_wav_def Let_def)

lemma files_run_ffmpeg:
  "e \<in> set (files (snd (run_ffmpeg E v a out w))) \<Longrightarrow> fst e = out \<or> e \<in> set (files w)"
  by (auto simp: run_ffmpeg_def Let_def dest!: files_write_file
      split: mux_tool.splits option.splits if_splits)

lemma dirs_run_ffmpeg: "dirs (snd (run_ffmpeg E v a out w)) = dirs w"
  by (simp add: run_ffmpeg_def Let_def write_file_def split: mux_tool.splits option.splits)

lemma lookup_run_ffmpeg_other:
  "q \<noteq> out \<Longrightarrow> lookup_file (snd (run_ffmpeg E v a out w)) q = lookup_file w q"
  by (simp add: run_ffmpeg_def Let_def split: mux_tool.splits option.splits)

lemma lookup_run_ffmpeg_done:
  "ffmpeg E = Exits 0 \<Longrightarrow> lookup_file w v = Some x \<Longrightarrow> lookup_file w a = Some y \<Longrightarrow>
     lookup_file (snd (run_ffmpeg E v a out w)) out = Some (Muxed x y)"
  by (simp add: run_ffmpeg_def Let_def)

lemma lookup_run_ffmpeg_missing:
  "ffmpeg E = Missing \<Longrightarrow> lookup_file (snd (run_ffmpeg E v a out w)) q = lookup_file w q"
  by (simp add: run_ffmpeg_def Let_def)

lemma temp_paths_differ: "temp_audio_of E \<noteq> temp_video_of E"
  by (simp add: temp_audio_of_def temp_video_of_def path_join_def)

lemma fresh_tmp_facts:
  assumes "fresh_tmp E w fn"
  shows "tmp_name E \<notin> set (dirs w)"
    and "\<forall>e \<in> set (files w). \<not> inside (tmp_name E) (fst e)"
    and "fn \<noteq> temp_audio_of E" and "fn \<noteq> temp_video_of E"
    and "\<not> inside (tmp_name E) fn"
    and "lookup_file w (temp_audio_of E) = None" and "lookup_file w (temp_video_of E) = None"
proof -
  from assms show a: "tmp_name E \<notin> set (dirs w)"
    and b: "\<forall>e \<in> set (files w). \<not> inside (tmp_name E) (fst e)"
    and c: "\<not> inside (tmp_name E) fn"
    by (auto simp: fresh_tmp_def list_ex_iff)
  from c show "fn \<noteq> temp_audio_of E" "fn \<noteq> temp_video_of E"
    using inside_join [of "tmp_name E"] by (auto simp: temp_audio_of_def temp_video_of_def)
  have "lookup_file w p = None" if "inside (tmp_name E) p" for p
  proof (cases "lookup_file w p")
    case None
    then show ?thesis .
  next
    case (Some c)
    then have "(p, c) \<in> set (files w)" by (simp add: lookup_file_def map_of_SomeD)
    with b that show ?thesis by auto
  qed
  then show "lookup_file w (temp_audio_of E) = None" "lookup_file w (temp_video_of E) = None"
    using inside_join [of "tmp_name E"] by (auto simp: temp_audio_of_def temp_video_of_def)
qed

lemma dirs_cleanup:
  assumes "d \<in> set (dirs w)"
    and "\<forall>e \<in> set (files w). inside d (fst e) \<longrightarrow> fst e = tv \<or> fst e = ta"
  shows "dirs (cleanup ta tv d w) = removeAll d (dirs w)"
proof -
  let ?w = "unlink_missing_ok tv (unlink_missing_ok ta w)"
  have "empty_dir d ?w" using assms(2) by (rule empty_dir_unlink)
  moreover have "d \<in> set (dirs ?w)" using assms(1) by (simp add: unlink_missing_ok_def)
  ultimately have "rmdir d ?w = Inr (?w\<lparr>dirs := removeAll d (dirs ?w)\<rparr>)"
    by (rule rmdir_empty [rotated])
  then show ?thesis by (simp add: cleanup_def Let_def unlink_missing_ok_def)
qed

lemma make_mp4_audio_dirs:
  assumes "writer_ffmpeg E" and "fr \<noteq> []" and "fresh_tmp E w fn"
  shows "dirs (snd (make_mp4 E fr fn (Some a) (Some r) fps w)) = dirs w"
proof -
  let ?w5 = "snd (run_ffmpeg E (temp_video_of E) (temp_audio_of E) fn (staged E fr fps a r w))"
  note f = fresh_tmp_facts [OF assms(3)]
  have d: "dirs ?w5 = tmp_name E # dirs w" by (simp add: dirs_run_ffmpeg dirs_staged)
  have "\<forall>e \<in> set (files ?w5). inside (tmp_name E) (fst e) \<longrightarrow>
          fst e = temp_video_of E \<or> fst e = temp_audio_of E"
    using f(2,5) by (auto dest!: files_run_ffmpeg files_staged)
  from dirs_cleanup [OF _ this] d f(1) show ?thesis
    by (simp add: make_mp4_audio [OF assms(1,2)])
qed

lemma make_mp4_audio_temps:
  assumes "writer_ffmpeg E" and "fr \<noteq> []"
  shows "lookup_file (snd (make_mp4 E fr fn (Some a) (Some r) fps w)) (temp_video_of E) = None"
    and "lookup_file (snd (make_mp4 E fr fn (Some a) (Some r) fps w)) (temp_audio_of E) = None"
  by (simp_all add: make_mp4_audio [OF assms] lookup_cleanup)

lemma make_mp4_audio_done:
  assumes "writer_ffmpeg E" and "fr \<noteq> []" and "fresh_tmp E w fn" and "ffmpeg E = Exits 0"
  shows "lookup_file (snd (make_mp4 E fr fn (Some a) (Some r) fps w)) fn \<noteq> None"
  using fresh_tmp_facts(3,4) [OF assms(3)] temp_paths_differ [of E]
    lookup_run_ffmpeg_done [OF assms(4), of "staged E fr fps a r w" "temp_video_of E" _
      "temp_audio_of E" _ fn]
  by (simp add: make_mp4_audio [OF assms(1,2)] lookup_cleanup lookup_staged)

lemma make_mp4_silent:
  assumes "writer_ffmpeg E" and "fr \<noteq> []" and "fresh_tmp E w fn"
    and "renamable E (temp_video_of E) fn" and "audio = None \<or> rate = None"
  shows "fst (make_mp4 E fr fn audio rate fps w) = None"
    and "lookup_file (snd (make_mp4 E fr fn audio rate fps w)) q =
           (if q = fn then Some (Video fr fps) else lookup_file w q)"
    and "dirs (snd (make_mp4 E fr fn audio rate fps w)) = dirs w"
proof -
  let ?d = "tmp_name E" and ?tv = "temp_video_of E"
  let ?w2 = "write_file ?tv (Video fr fps) (w\<lparr>dirs := ?d # dirs w\<rparr>)"
  let ?w3 = "write_file fn (Video fr fps) (unlink_missing_ok ?tv ?w2)"
  let ?w4 = "?w3\<lparr>dirs := removeAll ?d (dirs ?w3)\<rparr>"
  note f = fresh_tmp_facts [OF assms(3)]
  have wv: "write_video E fr fps ?tv (w\<lparr>dirs := ?d # dirs w\<rparr>) = (None, ?w2)"
    by (rule write_video_written [OF assms(1,2)])
  have rep: "path_replace E ?tv fn ?w2 = Inr ?w3"
    using assms(4) by (simp add: path_replace_def)
  have "empty_dir ?d ?w3"
    using f(2,5) by (auto simp: empty_dir_def write_file_def unlink_missing_ok_def)
  moreover have "?d \<in> set (dirs ?w3)"
    by (simp add: write_file_def unlink_missing_ok_def)
  ultimately have rm: "rmdir ?d ?w3 = Inr ?w4" by (rule rmdir_empty [rotated])
  have m: "make_mp4 E fr fn audio rate fps w = (None, ?w4)"
    unfolding make_mp4_one_sided [OF assms(5), of E fr fn fps w]
    by (simp add: make_mp4_none wv rep rm)
  show "fst (make_mp4 E fr fn audio rate fps w) = None" by (simp add: m)
  show "lookup_file (snd (make_mp4 E fr fn audio rate fps w)) q =
           (if q = fn then Some (Video fr fps) else lookup_file w q)"
    using f(7) by (simp add: m)
  show "dirs (snd (make_mp4 E fr fn audio rate fps w)) = dirs w"
    using f(1) by (simp add: m write_file_def unlink_missing_ok_def)
qed

lemma trace_cleanup: "trace (cleanup ta tv d w) = trace w"
  by (simp add: cleanup_def Let_def unlink_missing_ok_def rmdir_def)

lemma trace_run_ffmpeg:
  "trace (snd (run_ffmpeg E v a out w)) =
     trace w @ [Spawned [''ffmpeg'', ''-y'', ''-i'', v, ''-i'', a,
                 ''-c:v'', ''copy'', ''-c:a'', ''aac'', ''-shortest'', out]]"
  by (simp add: run_ffmpeg_def Let_def write_file_def split: mux_tool.splits option.splits)

lemma trace_staged: "trace (staged E fr fps a r w) = trace w @ [Wrote_wav (temp_audio_of E)]"
  by (simp add: staged_def write_wav_def write_file_def Let_def)

lemma make_mp4_audio_trace:
  assumes "writer_ffmpeg E" and "fr \<noteq> []"
  shows "trace (snd (make_mp4 E fr fn (Some a) (Some r) fps w)) =
     trace w @ [Wrote_wav (temp_audio_of E),
                Spawned [''ffmpeg'', ''-y'', ''-i'', temp_video_of E, ''-i'', temp_audio_of E,
                 ''-c:v'', ''copy'', ''-c:a'', ''aac'', ''-shortest'', fn]]"
  by (simp add: make_mp4_audio [OF assms] trace_cleanup trace_run_ffmpeg trace_staged)

lemma mux_audio_written:
  "mux_audio E d tv fn a r w =
     (reraise (fst (run_ffmpeg E tv (path_join d ''audio.wav'') fn
        (if dtype a \<noteq> Int16
         then write_wav \<lparr>dtype = Int16, samples = cast_int16 E (samples a)\<rparr> r
                (path_join d ''audio.wav'')
                (w\<lparr>log := log w @ [LogInfo ''Casting audio to int16 before muxing'']\<rparr>)
         else write_wav a r (path_join d ''audio.wav'') w))),
      cleanup (path_join d ''audio.wav'') tv d
        (snd (run_ffmpeg E tv (path_join d ''audio.wav'') fn
        (if dtype a \<noteq> Int16
         then write_wav \<lparr>dtype = Int16, samples = cast_int16 E (samples a)\<rparr> r
                (path_join d ''audio.wav'')
                (w\<lparr>log := log w @ [LogInfo ''Casting audio to int16 before muxing'']\<rparr>)
         else write_wav a r (path_join d ''audio.wav'') w))))"
  by (simp add: mux_audio_def Let_def reraise_def
      split: prod.splits option.splits py_error.splits)

lemma mux_audio_trace:
  "trace (snd (mux_audio E temp_dir temp_video final_path a r w)) =
     trace w @ [Wrote_wav (path_join temp_dir ''audio.wav''),
                Spawned [''ffmpeg'', ''-y'', ''-i'', temp_video, ''-i'',
                 path_join temp_dir ''audio.wav'',
                 ''-c:v'', ''copy'', ''-c:a'', ''aac'', ''-shortest'', final_path]]"
  by (simp add: mux_audio_written trace_cleanup trace_run_ffmpeg write_wav_def write_file_def)

lemma import_replay_names:
  "import_replay = Inr [''reformat_info'', ''get_variables_from_replay'', ''replay_bk2'',
                        ''op'', ''State'', ''logging'', ''retro'']"
  by (simp add: import_replay_def replay_py_def)

lemma import_video_error: "import_video = Inl ImportError"
  by (simp add: import_video_def import_replay_names video_py_def)

lemma demo_fresh: "fresh_tmp (demo_env lib t) demo_world ''out.mp4''"
  by (simp add: fresh_tmp_def demo_env_def demo_world_def inside_def)

lemma demo_renamable:
  "renamable (demo_env lib t) (temp_video_of (demo_env lib t)) ''out.mp4''"
  by (simp add: demo_env_def)

text \<open>
  Claim C7.  For an empty frame sequence \<open>make_gif\<close> and \<open>make_webp\<close> return without an
  error, log one warning and leave the files as they are.
\<close>

theorem empty_frames_no_write:
  "make_gif [] movie_fname w =
     (None, w\<lparr>log := log w @ [LogWarning (''No frames to save in '' @ movie_fname)]\<rparr>) \<and>
   make_webp [] movie_fname w =
     (None, w\<lparr>log := log w @ [LogWarning (''No frames to save in '' @ movie_fname)]\<rparr>) \<and>
   files (snd (make_gif [] movie_fname w)) = files w \<and>
   files (snd (make_webp [] movie_fname w)) = files w"
  by (simp add: make_gif_def make_webp_def)

text \<open>
  Claim C8.  \<^verbatim>\<open>video.py\<close> imports \<open>write_wav\<close> from \<^verbatim>\<open>replay.py\<close>, whose top-level
  statements bind seven names, \<open>write_wav\<close> not among them; so importing the video
  module raises \<open>ImportError\<close>, and so does reaching any of its three functions through
  it.  The audio path of \<open>make_mp4\<close>, lines 62 to 94, calls \<open>write_wav\<close>.
\<close>

theorem video_import_fails:
  "From_import ''.replay'' ''write_wav'' \<in> set video_py \<and>
   import_replay = Inr [''reformat_info'', ''get_variables_from_replay'', ''replay_bk2'',
                        ''op'', ''State'', ''logging'', ''retro''] \<and>
   import_video = Inl ImportError \<and>
   video_attr ''make_gif'' = Inl ImportError \<and>
   video_attr ''make_mp4'' = Inl ImportError \<and>
   video_attr ''make_webp'' = Inl ImportError \<and>
   Wrote_wav (path_join temp_dir ''audio.wav'')
     \<in> set (trace (snd (mux_audio E temp_dir temp_video final_path a r w)))"
proof -
  have s: "From_import ''.replay'' ''write_wav'' \<in> set video_py"
    by (simp add: video_py_def)
  have a: "video_attr f = Inl ImportError" for f
    by (simp add: video_attr_def import_video_error)
  have t: "Wrote_wav (path_join temp_dir ''audio.wav'')
     \<in> set (trace (snd (mux_audio E temp_dir temp_video final_path a r w)))"
    by (simp add: mux_audio_trace)
  from s a t import_replay_names import_video_error show ?thesis by blast
qed

text \<open>
  Claim C4, as amended.  Once the writer has written the temporary video (the video
  library has its \<open>ffmpeg\<close> and there is a frame): with audio and a sample rate,
  \<open>make_mp4\<close> hands the samples to \<open>write_wav\<close> and starts the multiplexer once, raises
  the \<open>RuntimeError\<close> for the missing binary exactly when the child process is not
  found, and the \<open>CalledProcessError\<close> exactly when it exits with a status other than
  0; when the binary is not found the two temporary files are gone after the call.
  Without audio or without a sample rate nothing is handed to \<open>write_wav\<close>, no child
  process is started, and neither error is raised.
\<close>

theorem make_mp4_mux_errors:
  assumes "writer_ffmpeg E" and "selected_frames \<noteq> []"
  shows
    "(audio \<noteq> None \<and> sample_rate \<noteq> None \<longrightarrow>
        ((\<exists>msg. fst (make_mp4 E selected_frames movie_fname audio sample_rate fps w)
                   = Some (RuntimeError msg)) \<longleftrightarrow> ffmpeg E = Missing) \<and>
        ((\<exists>rc. fst (make_mp4 E selected_frames movie_fname audio sample_rate fps w)
                   = Some (CalledProcessError rc)) \<longleftrightarrow> (\<exists>rc. rc \<noteq> 0 \<and> ffmpeg E = Exits rc)) \<and>
        trace (snd (make_mp4 E selected_frames movie_fname audio sample_rate fps w)) =
          trace w @ [Wrote_wav (path_join (tmp_name E) ''audio.wav''),
                     Spawned [''ffmpeg'', ''-y'', ''-i'',
                       path_join (tmp_name E) ''video_only.mp4'', ''-i'',
                       path_join (tmp_name E) ''audio.wav'',
                       ''-c:v'', ''copy'', ''-c:a'', ''aac'', ''-shortest'', movie_fname]] \<and>
        (ffmpeg E = Missing \<longrightarrow>
           lookup_file (snd (make_mp4 E selected_frames movie_fname audio sample_rate fps w))
             (path_join (tmp_name E) ''video_only.mp4'') = None \<and>
           lookup_file (snd (make_mp4 E selected_frames movie_fname audio sample_rate fps w))
             (path_join (tmp_name E) ''audio.wav'') = None)) \<and>
     (audio = None \<or> sample_rate = None \<longrightarrow>
        trace (snd (make_mp4 E selected_frames movie_fname audio sample_rate fps w)) = trace w \<and>
        (\<forall>msg. fst (make_mp4 E selected_frames movie_fname audio sample_rate fps w)
                  \<noteq> Some (RuntimeError msg)) \<and>
        (\<forall>rc. fst (make_mp4 E selected_frames movie_fname audio sample_rate fps w)
                  \<noteq> Some (CalledProcessError rc)))"
proof (cases "audio = None \<or> sample_rate = None")
  case True
  from make_mp4_silent_quiet [OF True, of E selected_frames movie_fname fps w] True
  show ?thesis by auto
next
  case False
  then obtain a r where ar: "audio = Some a" "sample_rate = Some r" by auto
  note o = make_mp4_audio_outcome [OF assms, of movie_fname a r fps w]
  have 1: "(\<exists>msg. fst (make_mp4 E selected_frames movie_fname audio sample_rate fps w)
                   = Some (RuntimeError msg)) \<longleftrightarrow> ffmpeg E = Missing"
    by (simp add: ar o split: mux_tool.splits)
  have 2: "(\<exists>rc. fst (make_mp4 E selected_frames movie_fname audio sample_rate fps w)
                   = Some (CalledProcessError rc)) \<longleftrightarrow> (\<exists>rc. rc \<noteq> 0 \<and> ffmpeg E = Exits rc)"
    by (auto simp: ar o split: mux_tool.splits)
  have 3: "trace (snd (make_mp4 E selected_frames movie_fname audio sample_rate fps w)) =
          trace w @ [Wrote_wav (path_join (tmp_name E) ''audio.wav''),
                     Spawned [''ffmpeg'', ''-y'', ''-i'',
                       path_join (tmp_name E) ''video_only.mp4'', ''-i'',
                       path_join (tmp_name E) ''audio.wav'',
                       ''-c:v'', ''copy'', ''-c:a'', ''aac'', ''-shortest'', movie_fname]]"
    by (simp add: ar make_mp4_audio_trace [OF assms] temp_video_of_def temp_audio_of_def)
  have 4: "lookup_file (snd (make_mp4 E selected_frames movie_fname audio sample_rate fps w))
             (path_join (tmp_name E) ''video_only.mp4'') = None \<and>
           lookup_file (snd (make_mp4 E selected_frames movie_fname audio sample_rate fps w))
             (path_join (tmp_name E) ''audio.wav'') = None"
    using make_mp4_audio_temps [OF assms, of movie_fname a r fps w]
    by (simp add: ar temp_video_of_def temp_audio_of_def)
  from False 1 2 3 4 show ?thesis by blast
qed

theorem make_mp4_mux_errors_witness:
  "writer_ffmpeg (demo_env True Missing) \<and> demo_frames \<noteq> [] \<and>
   ffmpeg (demo_env True Missing) = Missing \<and>
   fst (make_mp4 (demo_env True Missing) demo_frames ''out.mp4'' (Some (demo_audio Float32))
          (Some 44100) 60 demo_world) = Some (RuntimeError ffmpeg_required) \<and>
   lookup_file (snd (make_mp4 (demo_env True Missing) demo_frames ''out.mp4''
          (Some (demo_audio Float32)) (Some 44100) 60 demo_world))
     (path_join (tmp_name (demo_env True Missing)) ''video_only.mp4'') = None \<and>
   lookup_file (snd (make_mp4 (demo_env True Missing) demo_frames ''out.mp4''
          (Some (demo_audio Float32)) (Some 44100) 60 demo_world))
     (path_join (tmp_name (demo_env True Missing)) ''audio.wav'') = None \<and>
   trace (snd (make_mp4 (demo_env True (Exits 1)) demo_frames ''out.mp4'' None (Some 44100) 60
          demo_world)) = trace demo_world"
proof -
  have l: "writer_ffmpeg (demo_env True t)" for t by (simp add: demo_env_def)
  have n: "demo_frames \<noteq> []" by (simp add: demo_frames_def)
  have m: "ffmpeg (demo_env True Missing) = Missing" by (simp add: demo_env_def)
  have o: "fst (make_mp4 (demo_env True Missing) demo_frames ''out.mp4'' (Some (demo_audio Float32))
          (Some 44100) 60 demo_world) = Some (RuntimeError ffmpeg_required)"
    by (simp add: make_mp4_audio_outcome [OF l n] m)
  from make_mp4_mux_errors [OF l [of Missing] n, of "Some (demo_audio Float32)" "Some 44100"
      "''out.mp4''" 60 demo_world]
    make_mp4_mux_errors [OF l [of "Exits 1"] n, of None "Some 44100" "''out.mp4''" 60 demo_world]
    l [of Missing] n m o
  show ?thesis by simp
qed

text \<open>
  As stated the claim fails: without audio the call returns before a child process
  is started, so with the child process's binary missing no error is raised.
\<close>

theorem make_mp4_mux_errors_counterexample:
  "ffmpeg (demo_env True Missing) = Missing \<and>
   fst (make_mp4 (demo_env True Missing) demo_frames ''out.mp4'' None None 60 demo_world) = None"
proof -
  have l: "writer_ffmpeg (demo_env True Missing)" by (simp add: demo_env_def)
  have n: "demo_frames \<noteq> []" by (simp add: demo_frames_def)
  have "fst (make_mp4 (demo_env True Missing) demo_frames ''out.mp4'' None None 60 demo_world) = None"
    by (rule make_mp4_silent(1) [OF l n demo_fresh demo_renamable]) simp
  then show ?thesis by (simp add: demo_env_def)
qed

text \<open>
  Claim C5, as amended.  With audio and a sample rate, once the writer has written
  the temporary video, in a new temporary directory: when the multiplexer exits with
  status 0 the call returns and the output file exists; when it is not found or exits
  with another status the call raises.  In each of these cases the two temporary
  files and the temporary directory are gone after the call.
\<close>

theorem make_mp4_with_audio:
  assumes "writer_ffmpeg E" and "selected_frames \<noteq> []" and "fresh_tmp E w movie_fname"
  shows "(ffmpeg E = Exits 0 \<longrightarrow>
            fst (make_mp4 E selected_frames movie_fname (Some a) (Some r) fps w) = None \<and>
            lookup_file (snd (make_mp4 E selected_frames movie_fname (Some a) (Some r) fps w))
              movie_fname \<noteq> None) \<and>
         (ffmpeg E \<noteq> Exits 0 \<longrightarrow>
            fst (make_mp4 E selected_frames movie_fname (Some a) (Some r) fps w) \<noteq> None) \<and>
         lookup_file (snd (make_mp4 E selected_frames movie_fname (Some a) (Some r) fps w))
           (path_join (tmp_name E) ''video_only.mp4'') = None \<and>
         lookup_file (snd (make_mp4 E selected_frames movie_fname (Some a) (Some r) fps w))
           (path_join (tmp_name E) ''audio.wav'') = None \<and>
         dirs (snd (make_mp4 E selected_frames movie_fname (Some a) (Some r) fps w)) = dirs w"
proof -
  let ?R = "make_mp4 E selected_frames movie_fname (Some a) (Some r) fps w"
  note o = make_mp4_audio_outcome [OF assms(1,2), of movie_fname a r fps w]
  have 1: "ffmpeg E = Exits 0 \<longrightarrow> fst ?R = None \<and> lookup_file (snd ?R) movie_fname \<noteq> None"
    using make_mp4_audio_done [OF assms, of a r fps] by (simp add: o)
  have 2: "ffmpeg E \<noteq> Exits 0 \<longrightarrow> fst ?R \<noteq> None"
    by (simp add: o split: mux_tool.splits)
  have 3: "lookup_file (snd ?R) (path_join (tmp_name E) ''video_only.mp4'') = None"
    and 4: "lookup_file (snd ?R) (path_join (tmp_name E) ''audio.wav'') = None"
    using make_mp4_audio_temps [OF assms(1,2), of movie_fname a r fps w]
    by (simp_all add: temp_video_of_def temp_audio_of_def)
  have 5: "dirs (snd ?R) = dirs w" by (rule make_mp4_audio_dirs [OF assms])
  from 1 2 3 4 5 show ?thesis by blast
qed

theorem make_mp4_with_audio_witness:
  "writer_ffmpeg (demo_env True (Exits 0)) \<and> demo_frames \<noteq> [] \<and>
   fresh_tmp (demo_env True (Exits 0)) demo_world ''out.mp4'' \<and>
   ffmpeg (demo_env True (Exits 0)) = Exits 0 \<and>
   fst (make_mp4 (demo_env True (Exits 0)) demo_frames ''out.mp4'' (Some (demo_audio Float32))
          (Some 44100) 60 demo_world) = None \<and>
   lookup_file (snd (make_mp4 (demo_env True (Exits 0)) demo_frames ''out.mp4''
          (Some (demo_audio Float32)) (Some 44100) 60 demo_world)) ''out.mp4'' \<noteq> None \<and>
   writer_ffmpeg (demo_env True (Exits 1)) \<and>
   fresh_tmp (demo_env True (Exits 1)) demo_world ''out.mp4'' \<and>
   ffmpeg (demo_env True (Exits 1)) \<noteq> Exits 0 \<and>
   fst (make_mp4 (demo_env True (Exits 1)) demo_frames ''out.mp4'' (Some (demo_audio Int16))
          (Some 44100) 60 demo_world) \<noteq> None \<and>
   dirs (snd (make_mp4 (demo_env True (Exits 1)) demo_frames ''out.mp4'' (Some (demo_audio Int16))
          (Some 44100) 60 demo_world)) = dirs demo_world"
proof -
  have l: "writer_ffmpeg (demo_env True t)" for t by (simp add: demo_env_def)
  have n: "demo_frames \<noteq> []" by (simp add: demo_frames_def)
  have t0: "ffmpeg (demo_env True (Exits 0)) = Exits 0"
    and t1: "ffmpeg (demo_env True (Exits 1)) \<noteq> Exits 0"
    by (simp_all add: demo_env_def)
  from make_mp4_with_audio [OF l [of "Exits 0"] n demo_fresh, of "demo_audio Float32" 44100 60]
    make_mp4_with_audio [OF l [of "Exits 1"] n demo_fresh, of "demo_audio Int16" 44100 60]
    t0 t1 l [of "Exits 0"] l [of "Exits 1"] n
    demo_fresh [of True "Exits 0"] demo_fresh [of True "Exits 1"]
  show ?thesis by blast
qed

text \<open>
  As stated the claim fails: with the child process's binary missing no process runs,
  the call raises, and the output file that was not there before is not there
  afterwards.
\<close>

theorem make_mp4_with_audio_counterexample:
  "lookup_file demo_world ''out.mp4'' = None \<and>
   fst (make_mp4 (demo_env True Missing) demo_frames ''out.mp4'' (Some (demo_audio Int16))
          (Some 44100) 60 demo_world) = Some (RuntimeError ffmpeg_required) \<and>
   lookup_file (snd (make_mp4 (demo_env True Missing) demo_frames ''out.mp4''
          (Some (demo_audio Int16)) (Some 44100) 60 demo_world)) ''out.mp4'' = None"
proof -
  have l: "writer_ffmpeg (demo_env True Missing)" by (simp add: demo_env_def)
  have n: "demo_frames \<noteq> []" by (simp add: demo_frames_def)
  have m: "ffmpeg (demo_env True Missing) = Missing" by (simp add: demo_env_def)
  have z: "lookup_file demo_world ''out.mp4'' = None"
    by (simp add: lookup_file_def demo_world_def)
  note f = fresh_tmp_facts(3,4,6,7) [OF demo_fresh [of True Missing]]
  have "lookup_file (snd (make_mp4 (demo_env True Missing) demo_frames ''out.mp4''
          (Some (demo_audio Int16)) (Some 44100) 60 demo_world)) ''out.mp4'' = None"
    using f z
    by (simp add: make_mp4_audio [OF l n] lookup_cleanup lookup_run_ffmpeg_missing [OF m]
        lookup_staged)
  then show ?thesis
    by (simp add: make_mp4_audio_outcome [OF l n] m z)
qed

text \<open>
  Claim C10, as amended.  When only one of audio and sample rate is given, \<open>make_mp4\<close>
  does what it does with neither: nothing is handed to \<open>write_wav\<close> or to a child
  process, and nothing is logged.  Once the writer has written the temporary video,
  in a new temporary directory and with an output path that the temporary video can
  be renamed to, the call returns without an error, the silent video is at the output
  path and there is no waveform file.
\<close>

theorem make_mp4_partial_audio:
  assumes "(audio \<noteq> None \<and> sample_rate = None) \<or> (audio = None \<and> sample_rate \<noteq> None)"
  shows "make_mp4 E selected_frames movie_fname audio sample_rate fps w
           = make_mp4 E selected_frames movie_fname None None fps w \<and>
         trace (snd (make_mp4 E selected_frames movie_fname audio sample_rate fps w)) = trace w \<and>
         log (snd (make_mp4 E selected_frames movie_fname audio sample_rate fps w)) = log w \<and>
         (writer_ffmpeg E \<and> selected_frames \<noteq> [] \<and> fresh_tmp E w movie_fname \<and>
          renamable E (path_join (tmp_name E) ''video_only.mp4'') movie_fname \<longrightarrow>
            fst (make_mp4 E selected_frames movie_fname audio sample_rate fps w) = None \<and>
            lookup_file (snd (make_mp4 E selected_frames movie_fname audio sample_rate fps w))
              movie_fname = Some (Video selected_frames fps) \<and>
            lookup_file (snd (make_mp4 E selected_frames movie_fname audio sample_rate fps w))
              (path_join (tmp_name E) ''audio.wav'') = None)"
proof -
  let ?R = "make_mp4 E selected_frames movie_fname audio sample_rate fps w"
  from assms have n: "audio = None \<or> sample_rate = None" by blast
  have 1: "?R = make_mp4 E selected_frames movie_fname None None fps w"
    by (rule make_mp4_one_sided [OF n])
  note q = make_mp4_silent_quiet [OF n, of E selected_frames movie_fname fps w]
  have 2: "fst ?R = None \<and> lookup_file (snd ?R) movie_fname = Some (Video selected_frames fps) \<and>
           lookup_file (snd ?R) (path_join (tmp_name E) ''audio.wav'') = None"
    if h: "writer_ffmpeg E" "selected_frames \<noteq> []" "fresh_tmp E w movie_fname"
      "renamable E (path_join (tmp_name E) ''video_only.mp4'') movie_fname"
  proof -
    from h(4) have r: "renamable E (temp_video_of E) movie_fname"
      by (simp add: temp_video_of_def)
    note s = make_mp4_silent [OF h(1,2,3) r n, of fps]
    note f = fresh_tmp_facts [OF h(3)]
    from s(1) s(2) [of movie_fname] s(2) [of "temp_audio_of E"] f(3,6)
    show ?thesis by (simp add: temp_audio_of_def)
  qed
  from 1 q(1,2) 2 show ?thesis by blast
qed

theorem make_mp4_partial_audio_witness:
  "writer_ffmpeg (demo_env True Missing) \<and> demo_frames \<noteq> [] \<and>
   fresh_tmp (demo_env True Missing) demo_world ''out.mp4'' \<and>
   renamable (demo_env True Missing)
     (path_join (tmp_name (demo_env True Missing)) ''video_only.mp4'') ''out.mp4'' \<and>
   fst (make_mp4 (demo_env True Missing) demo_frames ''out.mp4'' (Some (demo_audio Float32)) None
          60 demo_world) = None \<and>
   lookup_file (snd (make_mp4 (demo_env True Missing) demo_frames ''out.mp4''
          (Some (demo_audio Float32)) None 60 demo_world)) ''out.mp4'' = Some (Video demo_frames 60) \<and>
   trace (snd (make_mp4 (demo_env True Missing) demo_frames ''out.mp4'' (Some (demo_audio Float32))
          None 60 demo_world)) = trace demo_world \<and>
   fst (make_mp4 (demo_env True Missing) demo_frames ''out.mp4'' None (Some 44100) 60 demo_world)
     = None \<and>
   log (snd (make_mp4 (demo_env True Missing) demo_frames ''out.mp4'' None (Some 44100) 60
          demo_world)) = log demo_world"
proof -
  have l: "writer_ffmpeg (demo_env True Missing)" by (simp add: demo_env_def)
  have n: "demo_frames \<noteq> []" by (simp add: demo_frames_def)
  have r: "renamable (demo_env True Missing)
     (path_join (tmp_name (demo_env True Missing)) ''video_only.mp4'') ''out.mp4''"
    by (simp add: demo_env_def)
  have h1: "(Some (demo_audio Float32) \<noteq> None \<and> (None :: nat option) = None) \<or>
            (Some (demo_audio Float32) = None \<and> (None :: nat option) \<noteq> None)" by simp
  have h2: "((None :: int list audio option) \<noteq> None \<and> Some (44100 :: nat) = None) \<or>
            ((None :: int list audio option) = None \<and> Some (44100 :: nat) \<noteq> None)" by simp
  from make_mp4_partial_audio [OF h1, of "demo_env True Missing" demo_frames "''out.mp4''" 60
      demo_world]
    make_mp4_partial_audio [OF h2, of "demo_env True Missing" demo_frames "''out.mp4''" 60
      demo_world]
    l n r demo_fresh [of True Missing]
  show ?thesis by blast
qed

text \<open>
  As stated the claim fails: with an output path on another file system than the
  temporary directory the rename of line 58 raises \<open>OSError\<close>, and the video is not at
  the output path.
\<close>

theorem make_mp4_partial_audio_counterexample:
  "fst (make_mp4 (demo_env True (Exits 0)) demo_frames ''/mnt/out.mp4'' (Some (demo_audio Int16))
          None 60 demo_world) = Some OSError \<and>
   lookup_file (snd (make_mp4 (demo_env True (Exits 0)) demo_frames ''/mnt/out.mp4''
          (Some (demo_audio Int16)) None 60 demo_world)) ''/mnt/out.mp4'' = None"
  by (simp add: make_mp4_def mkdtemp_def write_video_def path_replace_def demo_env_def
      demo_world_def demo_audio_def demo_frames_def path_join_def Let_def lookup_file_def
      write_file_def)

end
